theory Spec2Isabelle
  imports Complex_Main "HOL-Library.Multiset"
begin

section \<open>JavaScript values and library functions used by the sources\<close>

text \<open>
  A JavaScript string is modelled as a \<^typ>\<open>string\<close>: one \<^typ>\<open>char\<close> stands for one
  UTF-16 code unit, so the embedding covers the texts whose code units are below 256.
  A JavaScript number that the sources use as an index, a size or a count is an
  \<^typ>\<open>int\<close>; a similarity score is a \<^typ>\<open>real\<close> (no NaN, no rounding).
\<close>

definition is_space :: "char \<Rightarrow> bool" where
  \<comment> \<open>the class \<open>\s\<close> of a regular expression, which is also what \<open>trim\<close> removes\<close>
  "is_space c \<longleftrightarrow> c \<in> {CHR 0x09, CHR 0x0A, CHR 0x0B, CHR 0x0C, CHR 0x0D, CHR '' '', CHR 0xA0}"

definition trim :: "string \<Rightarrow> string" where
  "trim s = rev (dropWhile is_space (rev (dropWhile is_space s)))"

text \<open>\<open>s.split(/[...]+/)\<close>: the pieces between maximal runs of separator characters.
  The flag tells that the previous character was a separator.\<close>

fun split_runs :: "(char \<Rightarrow> bool) \<Rightarrow> bool \<Rightarrow> string \<Rightarrow> string \<Rightarrow> string list" where
  "split_runs sep prev cur [] = [rev cur]"
| "split_runs sep prev cur (c # cs) =
     (if sep c then (if prev then split_runs sep True [] cs
                     else rev cur # split_runs sep True [] cs)
      else split_runs sep False (c # cur) cs)"

definition split_regex :: "(char \<Rightarrow> bool) \<Rightarrow> string \<Rightarrow> string list" where
  "split_regex sep s = split_runs sep False [] s"

text \<open>\<open>s.split(' ')\<close>: every single separator cuts, so two adjacent ones give an empty piece.\<close>

fun split_at :: "char \<Rightarrow> string \<Rightarrow> string \<Rightarrow> string list" where
  "split_at d cur [] = [rev cur]"
| "split_at d cur (c # cs) =
     (if c = d then rev cur # split_at d [] cs else split_at d (c # cur) cs)"

definition split_char :: "char \<Rightarrow> string \<Rightarrow> string list" where
  "split_char d s = split_at d [] s"

fun join :: "string \<Rightarrow> string list \<Rightarrow> string" where
  "join d [] = []"
| "join d [x] = x"
| "join d (x # y # ys) = x @ d @ join d (y # ys)"

text \<open>\<open>xs.slice(start, end)\<close> and \<open>xs.slice(start)\<close> on arrays and strings: a negative
  index counts from the end, and both indices are clamped to the length.\<close>

definition slice_index :: "nat \<Rightarrow> int \<Rightarrow> nat" where
  "slice_index n i = (if i < 0 then nat (max (int n + i) 0) else min (nat i) n)"

definition slice :: "int \<Rightarrow> int \<Rightarrow> 'a list \<Rightarrow> 'a list" where
  "slice b e xs =
     (let from = slice_index (length xs) b; to = slice_index (length xs) e
      in take (to - from) (drop from xs))"

definition slice_from :: "int \<Rightarrow> 'a list \<Rightarrow> 'a list" where
  "slice_from b xs = drop (slice_index (length xs) b) xs"

text \<open>\<open>s.substring(0, n)\<close> for a literal \<open>n\<close>.\<close>

definition substring0 :: "nat \<Rightarrow> string \<Rightarrow> string" where
  "substring0 n s = take n s"

text \<open>\<open>xs.sort((a, b) => b.score - a.score)\<close>: the sort of the language is stable, so
  it is the stable insertion sort by decreasing key.\<close>

definition sort_desc :: "('a \<Rightarrow> real) \<Rightarrow> 'a list \<Rightarrow> 'a list" where
  "sort_desc f xs = sort_key (\<lambda>x. - f x) xs"

definition sorted_desc :: "real list \<Rightarrow> bool" where
  "sorted_desc xs = sorted (map uminus xs)"

section \<open>Candidate gathering in the chat route\<close>

text \<open>A match of the vector index, as \<open>pineconeIndex.query\<close> returns it: the score and
  the metadata fields may be absent; the page is a number, a string or absent.\<close>

datatype page_value = PageNumber int | PageString string | PageAbsent

record index_match =
  match_score :: "real option"
  full_content :: "string option"
  md_filename :: "string option"
  md_document_id :: "string option"
  md_page :: page_value
  md_page_type :: "string option"

record SearchMatch =
  content :: string
  filename :: string
  document_id :: string
  page :: "int option"
  page_type :: string
  score :: real

definition or_zero :: "real option \<Rightarrow> real" where
  \<comment> \<open>\<open>match.score || 0\<close>\<close>
  "or_zero s = (case s of None \<Rightarrow> 0 | Some v \<Rightarrow> v)"

definition or_empty :: "string option \<Rightarrow> string" where
  \<comment> \<open>\<open>String(x || '')\<close>\<close>
  "or_empty s = (case s of None \<Rightarrow> [] | Some v \<Rightarrow> v)"

text \<open>\<open>parseInt(s, 10)\<close>: leading white space, an optional sign, then the longest run
  of decimal digits; \<open>None\<close> stands for NaN.\<close>

definition is_digit :: "char \<Rightarrow> bool" where
  "is_digit c \<longleftrightarrow> 48 \<le> (of_char c :: nat) \<and> (of_char c :: nat) \<le> 57"

definition digits_value :: "string \<Rightarrow> int" where
  "digits_value ds = foldl (\<lambda>acc c. 10 * acc + (int (of_char c) - 48)) 0 ds"

definition parseInt :: "string \<Rightarrow> int option" where
  "parseInt s =
     (let t = dropWhile is_space s;
          neg = (t \<noteq> [] \<and> hd t = CHR ''-'');
          u = (if t \<noteq> [] \<and> (hd t = CHR ''-'' \<or> hd t = CHR ''+'') then tl t else t);
          ds = takeWhile is_digit u
      in if ds = [] then None
         else Some (if neg then - digits_value ds else digits_value ds))"

definition page_of :: "page_value \<Rightarrow> int option" where
  \<comment> \<open>a number is kept; a string is parsed and \<open>parseInt(..) || null\<close> drops NaN and 0\<close>
  "page_of p =
     (case p of
        PageNumber n \<Rightarrow> Some n
      | PageString s \<Rightarrow> (case parseInt s of None \<Rightarrow> None
                          | Some n \<Rightarrow> if n = 0 then None else Some n)
      | PageAbsent \<Rightarrow> None)"

definition to_search_match :: "index_match \<Rightarrow> SearchMatch" where
  "to_search_match m =
     \<lparr> content = or_empty (full_content m),
       filename = or_empty (md_filename m),
       document_id = or_empty (md_document_id m),
       page = page_of (md_page m),
       page_type = or_empty (md_page_type m),
       score = or_zero (match_score m) \<rparr>"

definition searchMatches :: "index_match list \<Rightarrow> SearchMatch list" where
  \<comment> \<open>\<open>matches.filter(match => (match.score || 0) > 0.6).map(...)\<close>\<close>
  "searchMatches ms = map to_search_match (filter (\<lambda>m. or_zero (match_score m) > 0.6) ms)"

definition scored :: "real \<Rightarrow> index_match" where
  \<comment> \<open>a match with the given score and no metadata\<close>
  "scored s =
     \<lparr> match_score = Some s, full_content = None, md_filename = None,
       md_document_id = None, md_page = PageAbsent, md_page_type = None \<rparr>"

section \<open>The reranker\<close>

record RerankResult = SearchMatch +
  originalScore :: real
  rerankScore :: real

datatype js_error = SyntaxError | FetchError | NoResponseBody | ReadError

definition lower_char :: "char \<Rightarrow> char" where
  "lower_char c =
     (let n = (of_char c :: nat)
      in if (65 \<le> n \<and> n \<le> 90) \<or> (192 \<le> n \<and> n \<le> 222 \<and> n \<noteq> 215)
         then char_of (n + 32) else c)"

definition toLowerCase :: "string \<Rightarrow> string" where
  "toLowerCase s = map lower_char s"

text \<open>
  \<open>(content.match(new RegExp(word, 'g')) || []).length\<close> is a function of the language's
  regular-expression engine, not of this repository: the functions below take it as the
  parameter \<open>rx\<close>, where \<open>rx word content\<close> is the number of matches of the pattern
  \<open>word\<close> in \<open>content\<close>, and \<open>None\<close> when the constructor rejects the pattern with a
  SyntaxError.
\<close>

type_synonym regexp_engine = "string \<Rightarrow> string \<Rightarrow> nat option"

text \<open>The \<open>reduce\<close> over the query words: the sum of the match counts, unless a pattern
  is rejected.\<close>

fun keyword_hits :: "regexp_engine \<Rightarrow> string list \<Rightarrow> string \<Rightarrow> js_error + nat" where
  "keyword_hits rx [] c = Inr 0"
| "keyword_hits rx (w # ws) c =
     (case rx w c of
        None \<Rightarrow> Inl SyntaxError
      | Some n \<Rightarrow> (case keyword_hits rx ws c of Inl e \<Rightarrow> Inl e | Inr k \<Rightarrow> Inr (n + k)))"

definition keywordScore :: "nat \<Rightarrow> string list \<Rightarrow> real" where
  "keywordScore hits queryWords = real hits / real (length queryWords)"

definition lengthScore :: "SearchMatch \<Rightarrow> real" where
  "lengthScore m = min 1 (real (length (content m)) / 1000)"

definition score_match :: "regexp_engine \<Rightarrow> string list \<Rightarrow> SearchMatch \<Rightarrow> js_error + RerankResult" where
  "score_match rx queryWords m =
     (case keyword_hits rx queryWords (toLowerCase (content m)) of
        Inl e \<Rightarrow> Inl e
      | Inr hits \<Rightarrow>
          (let combinedScore =
                 score m * 0.5 + keywordScore hits queryWords * 0.3 + lengthScore m * 0.2
           in Inr \<lparr> content = content m, filename = filename m,
                    document_id = document_id m, page = page m, page_type = page_type m,
                    score = combinedScore, originalScore = score m,
                    rerankScore = combinedScore \<rparr>))"

text \<open>\<open>matches.map(...)\<close> with a callback that may throw: the first error ends the map.\<close>

fun map_try :: "('a \<Rightarrow> js_error + 'b) \<Rightarrow> 'a list \<Rightarrow> js_error + 'b list" where
  "map_try f [] = Inr []"
| "map_try f (x # xs) =
     (case f x of
        Inl e \<Rightarrow> Inl e
      | Inr y \<Rightarrow> (case map_try f xs of Inl e \<Rightarrow> Inl e | Inr ys \<Rightarrow> Inr (y # ys)))"

definition queryWords_of :: "string \<Rightarrow> string list" where
  \<comment> \<open>\<open>query.toLowerCase().split(/\s+/)\<close>\<close>
  "queryWords_of query = split_regex is_space (toLowerCase query)"

definition rerankBySimilarity_try ::
    "regexp_engine \<Rightarrow> string \<Rightarrow> SearchMatch list \<Rightarrow> int \<Rightarrow> js_error + RerankResult list" where
  \<comment> \<open>the \<open>try\<close> block of \<open>rerankBySimilarity\<close>\<close>
  "rerankBySimilarity_try rx query matches topK =
     (case map_try (score_match rx (queryWords_of query)) matches of
        Inl e \<Rightarrow> Inl e
      | Inr scoredMatches \<Rightarrow> Inr (slice 0 topK (sort_desc score scoredMatches)))"

definition unmodified :: "SearchMatch \<Rightarrow> RerankResult" where
  "unmodified m =
     \<lparr> content = content m, filename = filename m, document_id = document_id m,
       page = page m, page_type = page_type m, score = score m,
       originalScore = score m, rerankScore = score m \<rparr>"

definition rerankBySimilarity ::
    "regexp_engine \<Rightarrow> string \<Rightarrow> SearchMatch list \<Rightarrow> int \<Rightarrow> RerankResult list" where
  \<comment> \<open>the \<open>catch\<close> block is the last resort: the original results\<close>
  "rerankBySimilarity rx query matches topK =
     (case rerankBySimilarity_try rx query matches topK of
        Inr r \<Rightarrow> r
      | Inl e \<Rightarrow> map unmodified (slice 0 topK matches))"

text \<open>What the call of the rerank endpoint can do: the API key is not configured, the
  request or the decoding of its answer throws, the answer is not \<open>ok\<close>, or the answer
  is decoded and holds \<open>results\<close> (absent, or a list of items).\<close>

record rerank_item =
  index :: int
  relevance_score :: real

datatype rerank_api = NoApiKey | FetchThrows | NotOk | Answer "rerank_item list option"

definition nth_match :: "SearchMatch list \<Rightarrow> int \<Rightarrow> SearchMatch option" where
  \<comment> \<open>\<open>matches[item.index]\<close>, undefined out of range\<close>
  "nth_match matches i =
     (if 0 \<le> i \<and> i < int (length matches) then Some (matches ! nat i) else None)"

definition or_score :: "real \<Rightarrow> real \<Rightarrow> real" where
  \<comment> \<open>\<open>item.relevance_score || originalMatch.score\<close>\<close>
  "or_score r s = (if r = 0 then s else r)"

definition combine :: "SearchMatch list \<Rightarrow> rerank_item \<Rightarrow> RerankResult option" where
  "combine matches item =
     (case nth_match matches (index item) of
        None \<Rightarrow> None
      | Some originalMatch \<Rightarrow>
          (let combinedScore = score originalMatch * 0.3 + relevance_score item * 0.7
           in Some \<lparr> content = content originalMatch, filename = filename originalMatch,
                     document_id = document_id originalMatch, page = page originalMatch,
                     page_type = page_type originalMatch, score = combinedScore,
                     originalScore = score originalMatch,
                     rerankScore = or_score (relevance_score item) (score originalMatch) \<rparr>))"

definition rerankedResults :: "SearchMatch list \<Rightarrow> rerank_item list option \<Rightarrow> RerankResult list" where
  "rerankedResults matches results =
     (case results of None \<Rightarrow> [] | Some items \<Rightarrow> List.map_filter (combine matches) items)"

definition rerankWithBGE_try ::
    "regexp_engine \<Rightarrow> rerank_api \<Rightarrow> string \<Rightarrow> SearchMatch list \<Rightarrow> int \<Rightarrow> js_error + RerankResult list" where
  \<comment> \<open>the \<open>try\<close> block of \<open>rerankWithBGE\<close>\<close>
  "rerankWithBGE_try rx api query matches topK =
     (if matches = [] then Inr []
      else case api of
        NoApiKey \<Rightarrow> Inr (rerankBySimilarity rx query matches topK)
      | FetchThrows \<Rightarrow> Inl FetchError
      | NotOk \<Rightarrow> Inr (rerankBySimilarity rx query matches topK)
      | Answer results \<Rightarrow>
          (if rerankedResults matches results = []
           then Inr (rerankBySimilarity rx query matches topK)
           else Inr (sort_desc score (rerankedResults matches results))))"

definition rerankWithBGE ::
    "regexp_engine \<Rightarrow> rerank_api \<Rightarrow> string \<Rightarrow> SearchMatch list \<Rightarrow> int \<Rightarrow> RerankResult list" where
  "rerankWithBGE rx api query matches topK =
     (case rerankWithBGE_try rx api query matches topK of
        Inr r \<Rightarrow> r
      | Inl e \<Rightarrow> rerankBySimilarity rx query matches topK)"

definition candidate :: "string \<Rightarrow> string \<Rightarrow> real \<Rightarrow> SearchMatch" where
  \<comment> \<open>a candidate with the given file name, text and similarity\<close>
  "candidate f c s =
     \<lparr> content = c, filename = f, document_id = [], page = None, page_type = [], score = s \<rparr>"

text \<open>
  A concrete engine for the examples. It is the engine of the language on two classes
  of patterns: a pattern without metacharacters matches literally, its matches found
  from left to right without overlap (the empty pattern matches at every position,
  the end included); a pattern that starts with a quantifier is rejected (nothing to
  repeat). It is used on such patterns only.
\<close>

function count_from :: "string \<Rightarrow> string \<Rightarrow> nat" where
  "count_from w [] = 0"
| "count_from w (c # cs) =
     (if take (length w) (c # cs) = w then Suc (count_from w (drop (length w - 1) cs))
      else count_from w cs)"
  by pat_completeness auto
termination
  by (relation "measure (\<lambda>(w, s). length s)") auto

definition literal_engine :: regexp_engine where
  "literal_engine w c =
     (if w = [] then Some (Suc (length c))
      else if hd w \<in> {CHR ''*'', CHR ''+'', CHR ''?''} then None
      else Some (count_from w c))"

text \<open>What the \<open>try\<close> block computes for a candidate when no pattern is rejected: the
  matches of the lower-case query words, taken as patterns, in the lower-case text, divided
  by the number of query words, and the score combined from it.\<close>

definition patternDensity :: "regexp_engine \<Rightarrow> string \<Rightarrow> string \<Rightarrow> real" where
  "patternDensity rx query text =
     real (sum_list (map (\<lambda>w. case rx w (toLowerCase text) of None \<Rightarrow> 0 | Some n \<Rightarrow> n)
                         (queryWords_of query)))
     / real (length (queryWords_of query))"

definition pattern_score :: "regexp_engine \<Rightarrow> string \<Rightarrow> SearchMatch \<Rightarrow> real" where
  "pattern_score rx query m =
     0.5 * score m + 0.3 * patternDensity rx query (content m)
       + 0.2 * min 1 (real (length (content m)) / 1000)"

definition pattern_result :: "regexp_engine \<Rightarrow> string \<Rightarrow> SearchMatch \<Rightarrow> RerankResult" where
  "pattern_result rx query m =
     (unmodified m)\<lparr> score := pattern_score rx query m,
                     rerankScore := pattern_score rx query m \<rparr>"

text \<open>The fallback in the words of the specification: the keyword density of a text is
  the total number of occurrences of the query terms in the text, divided by the number
  of query terms. An occurrence of a term is a place where the text holds the characters
  of the term; the occurrences are counted from left to right without overlap, the empty
  term at every position, and the terms and the text are compared in lower case.\<close>

definition occurrences :: "string \<Rightarrow> string \<Rightarrow> nat" where
  "occurrences w text = (if w = [] then Suc (length text) else count_from w text)"

definition keywordDensity :: "string \<Rightarrow> string \<Rightarrow> real" where
  "keywordDensity query text =
     real (sum_list (map (\<lambda>w. occurrences w (toLowerCase text)) (queryWords_of query)))
     / real (length (queryWords_of query))"

definition fallback_score :: "string \<Rightarrow> SearchMatch \<Rightarrow> real" where
  "fallback_score query m =
     0.5 * score m + 0.3 * keywordDensity query (content m)
       + 0.2 * min 1 (real (length (content m)) / 1000)"

definition counts_occurrences :: "regexp_engine \<Rightarrow> string \<Rightarrow> SearchMatch list \<Rightarrow> bool" where
  \<comment> \<open>on the query words and the candidates, a match of the pattern is an occurrence of
      the word; so it is for the words without metacharacters\<close>
  "counts_occurrences rx query matches \<longleftrightarrow>
     (\<forall>m \<in> set matches. \<forall>w \<in> set (queryWords_of query).
        rx w (toLowerCase (content m)) = Some (occurrences w (toLowerCase (content m))))"

definition rx_accepts :: "regexp_engine \<Rightarrow> string \<Rightarrow> SearchMatch list \<Rightarrow> bool" where
  \<comment> \<open>no pattern built from the query is rejected on a candidate\<close>
  "rx_accepts rx query matches \<longleftrightarrow>
     (\<forall>m \<in> set matches. \<forall>w \<in> set (queryWords_of query).
        rx w (toLowerCase (content m)) \<noteq> None)"

definition unavailable :: "rerank_api \<Rightarrow> bool" where
  "unavailable api \<longleftrightarrow> api = NoApiKey \<or> api = FetchThrows \<or> api = NotOk"

section \<open>Fusion of the sources in the chat route\<close>

text \<open>A result of the multimedia search; the route reads these fields of it.\<close>

record multimedia_result =
  mm_summary :: "string option"
  mm_content :: string
  mm_filename :: string
  mm_score :: real
  file_type :: string
  content_type :: string
  mm_page :: "int option"
  mm_page_type :: "string option"

record multimedia_context =
  mc_content :: string
  mc_filename :: string
  mc_score :: real
  mc_type :: string
  mc_contentType :: string
  mc_isMultimedia :: bool

definition multimediaContext :: "multimedia_result list \<Rightarrow> multimedia_context list" where
  \<comment> \<open>\<open>result.summary || result.content\<close>; the score is boosted by 1.2\<close>
  "multimediaContext multimediaResults =
     map (\<lambda>result.
            \<lparr> mc_content = (case mm_summary result of
                               None \<Rightarrow> mm_content result
                             | Some s \<Rightarrow> if s = [] then mm_content result else s),
              mc_filename = mm_filename result,
              mc_score = mm_score result * 1.2,
              mc_type = file_type result,
              mc_contentType = content_type result,
              mc_isMultimedia = True \<rparr>) multimediaResults"

text \<open>The reference of a source is the text \<open>n\<close> for the \<open>n\<close>-th document and \<open>Mn\<close> for
  the \<open>n\<close>-th multimedia result; the page information is the page number followed by
  the word for page, or by the word for segment when the page type is \<open>chunk\<close>.\<close>

datatype reference = DocumentRef nat | MultimediaRef nat

datatype page_info = NoPageInfo | PageLabel int | SegmentLabel int

record source =
  src_filename :: string
  src_content :: string
  src_score :: real
  src_originalScore :: "real option"
  src_rerankScore :: "real option"
  src_type :: string
  src_contentType :: "string option"
  src_isMultimedia :: bool
  referenceId :: "reference option"
  src_page :: "int option"
  src_page_type :: "string option"
  pageInfo :: "page_info option"

definition truthy_page :: "int option \<Rightarrow> int option" where
  \<comment> \<open>\<open>if (ctx.page)\<close>: neither absent nor 0\<close>
  "truthy_page p = (case p of None \<Rightarrow> None | Some n \<Rightarrow> if n = 0 then None else Some n)"

definition document_pageInfo :: "RerankResult \<Rightarrow> page_info" where
  "document_pageInfo ctx =
     (case truthy_page (page ctx) of
        None \<Rightarrow> NoPageInfo
      | Some n \<Rightarrow> if page_type ctx = ''slide'' then PageLabel n
                  else if page_type ctx = ''chunk'' then SegmentLabel n
                  else PageLabel n)"

definition multimedia_pageInfo :: "multimedia_result \<Rightarrow> page_info" where
  "multimedia_pageInfo originalResult =
     (case truthy_page (mm_page originalResult) of
        None \<Rightarrow> NoPageInfo
      | Some n \<Rightarrow> PageLabel n)"

definition snippet :: "string \<Rightarrow> string" where
  \<comment> \<open>\<open>content.substring(0, 200) + '...'\<close>\<close>
  "snippet c = substring0 200 c @ ''...''"

definition document_source :: "nat \<Rightarrow> RerankResult \<Rightarrow> source" where
  "document_source i ctx =
     \<lparr> src_filename = filename ctx, src_content = snippet (content ctx),
       src_score = score ctx, src_originalScore = Some (originalScore ctx),
       src_rerankScore = Some (rerankScore ctx), src_type = ''document'',
       src_contentType = None, src_isMultimedia = False,
       referenceId = Some (DocumentRef (i + 1)), src_page = page ctx,
       src_page_type = Some (page_type ctx), pageInfo = Some (document_pageInfo ctx) \<rparr>"

definition multimedia_source :: "nat \<Rightarrow> multimedia_context \<Rightarrow> multimedia_result \<Rightarrow> source" where
  "multimedia_source i ctx originalResult =
     \<lparr> src_filename = mc_filename ctx, src_content = snippet (mc_content ctx),
       src_score = mc_score ctx, src_originalScore = None, src_rerankScore = None,
       src_type = mc_type ctx, src_contentType = Some (mc_contentType ctx),
       src_isMultimedia = True, referenceId = Some (MultimediaRef (i + 1)),
       src_page = mm_page originalResult, src_page_type = mm_page_type originalResult,
       pageInfo = Some (multimedia_pageInfo originalResult) \<rparr>"

text \<open>\<open>uniqueSources\<close> is a \<open>Map\<close>: it keeps its keys in the order of their first
  insertion, and \<open>set\<close> on a present key replaces the value in place.\<close>

fun map_set :: "'k \<Rightarrow> 'v \<Rightarrow> ('k \<times> 'v) list \<Rightarrow> ('k \<times> 'v) list" where
  "map_set k v [] = [(k, v)]"
| "map_set k v ((k', v') # kvs) =
     (if k' = k then (k, v) # kvs else (k', v') # map_set k v kvs)"

definition offer :: "(string \<times> source) list \<Rightarrow> source \<Rightarrow> (string \<times> source) list" where
  \<comment> \<open>\<open>if (!uniqueSources.has(filename) || uniqueSources.get(filename).score < ctx.score)\<close>\<close>
  "offer uniqueSources s =
     (case map_of uniqueSources (src_filename s) of
        None \<Rightarrow> map_set (src_filename s) s uniqueSources
      | Some old \<Rightarrow> if src_score old < src_score s
                    then map_set (src_filename s) s uniqueSources else uniqueSources)"

definition document_sources :: "RerankResult list \<Rightarrow> source list" where
  "document_sources relevantContext =
     map (\<lambda>(i, ctx). document_source i ctx) (enumerate 0 relevantContext)"

definition multimedia_sources :: "multimedia_result list \<Rightarrow> source list" where
  "multimedia_sources multimediaResults =
     map (\<lambda>(i, ctx, originalResult). multimedia_source i ctx originalResult)
         (enumerate 0 (zip (multimediaContext multimediaResults) multimediaResults))"

definition uniqueSources :: "RerankResult list \<Rightarrow> multimedia_result list \<Rightarrow> (string \<times> source) list" where
  "uniqueSources relevantContext multimediaResults =
     foldl offer (foldl offer [] (document_sources relevantContext))
           (multimedia_sources multimediaResults)"

definition allSources :: "RerankResult list \<Rightarrow> multimedia_result list \<Rightarrow> source list" where
  \<comment> \<open>\<open>Array.from(uniqueSources.values()).sort((a, b) => b.score - a.score)\<close>\<close>
  "allSources relevantContext multimediaResults =
     sort_desc src_score (map snd (uniqueSources relevantContext multimediaResults))"

definition offered :: "RerankResult list \<Rightarrow> multimedia_result list \<Rightarrow> source list" where
  \<comment> \<open>every entry that competes for a place: the documents, then the boosted multimedia\<close>
  "offered relevantContext multimediaResults =
     document_sources relevantContext @ multimedia_sources multimediaResults"

definition reranked :: "string \<Rightarrow> real \<Rightarrow> RerankResult" where
  \<comment> \<open>a reranked document with the given file name and fused score\<close>
  "reranked f s = unmodified (candidate f ''text'' s)"

definition media :: "string \<Rightarrow> real \<Rightarrow> multimedia_result" where
  \<comment> \<open>a multimedia result with the given file name and score\<close>
  "media f s =
     \<lparr> mm_summary = None, mm_content = ''clip'', mm_filename = f, mm_score = s,
       file_type = ''video'', content_type = ''video/mp4'', mm_page = None,
       mm_page_type = None \<rparr>"

text \<open>The invariant of the two \<open>forEach\<close> loops: after the entries \<open>seen\<close> have been
  offered, the map holds under each file name an entry of \<open>seen\<close> with that name whose
  score no entry of \<open>seen\<close> with that name exceeds, and no other key.\<close>

definition best_in :: "source list \<Rightarrow> string \<Rightarrow> source option \<Rightarrow> bool" where
  "best_in seen k r =
     (case r of
        None \<Rightarrow> k \<notin> src_filename ` set seen
      | Some v \<Rightarrow> src_filename v = k \<and> v \<in> set seen \<and>
                 (\<forall>c \<in> set seen. src_filename c = k \<longrightarrow> src_score c \<le> src_score v))"

definition best_of :: "source list \<Rightarrow> (string \<times> source) list \<Rightarrow> bool" where
  "best_of seen m \<longleftrightarrow> distinct (map fst m) \<and> (\<forall>k. best_in seen k (map_of m k))"

definition item :: "int \<Rightarrow> real \<Rightarrow> rerank_item" where
  \<comment> \<open>an item of the endpoint's answer\<close>
  "item i r = \<lparr> index = i, relevance_score = r \<rparr>"


section \<open>The page-aware chunker of the document parser\<close>

record ChunkWithPage =
  chunk_content :: string
  pageNumber :: "int option"
  startChar :: int
  endChar :: int
  chunkIndex :: nat

text \<open>An element of the optional \<open>pages\<close> argument.\<close>

record page_span =
  span_pageNumber :: int
  span_content :: string
  span_startChar :: int
  span_endChar :: int

definition is_terminal :: "char \<Rightarrow> bool" where
  \<comment> \<open>the class \<open>[.!?]\<close>\<close>
  "is_terminal c \<longleftrightarrow> c = CHR ''.'' \<or> c = CHR ''!'' \<or> c = CHR ''?''"

definition sentences_of :: "string \<Rightarrow> string list" where
  \<comment> \<open>\<open>text.split(/[.!?]+/).filter(s => s.trim().length > 0)\<close>\<close>
  "sentences_of text = filter (\<lambda>s. length (trim s) > 0) (split_regex is_terminal text)"

definition overlapWords :: "int \<Rightarrow> string \<Rightarrow> string list" where
  \<comment> \<open>\<open>currentChunk.split(' ').slice(-Math.floor(overlap / 10))\<close>\<close>
  "overlapWords overlap currentChunk =
     slice_from (- (overlap div 10)) (split_char CHR '' '' currentChunk)"

definition exceeds :: "int \<Rightarrow> string \<Rightarrow> string \<Rightarrow> bool" where
  \<comment> \<open>\<open>currentChunk.length + sentence.length > chunkSize && currentChunk.length > 0\<close>\<close>
  "exceeds chunkSize currentChunk sentence \<longleftrightarrow>
     int (length currentChunk) + int (length sentence) > chunkSize \<and> length currentChunk > 0"

definition append_sentence :: "string \<Rightarrow> string \<Rightarrow> string" where
  \<comment> \<open>\<open>currentChunk += (currentChunk ? ' ' : '') + sentence\<close>\<close>
  "append_sentence currentChunk sentence =
     currentChunk @ (if currentChunk \<noteq> [] then '' '' else []) @ sentence"

definition reseed :: "int \<Rightarrow> string \<Rightarrow> string \<Rightarrow> string" where
  \<comment> \<open>\<open>overlapWords.join(' ') + ' ' + sentence\<close>\<close>
  "reseed overlap currentChunk sentence =
     join '' '' (overlapWords overlap currentChunk) @ '' '' @ sentence"

text \<open>The loop over the sentences when there are no pages. Its state is the list of
  chunks, the running buffer, the next index and the running position.\<close>

fun plain_loop ::
    "int \<Rightarrow> int \<Rightarrow> string list \<Rightarrow> ChunkWithPage list \<Rightarrow> string \<Rightarrow> nat \<Rightarrow> int
      \<Rightarrow> ChunkWithPage list \<times> string \<times> nat \<times> int" where
  "plain_loop chunkSize overlap [] chunks currentChunk idx currentPos =
     (chunks, currentChunk, idx, currentPos)"
| "plain_loop chunkSize overlap (sentence # rest) chunks currentChunk idx currentPos =
     (if exceeds chunkSize currentChunk (trim sentence)
      then plain_loop chunkSize overlap rest
             (chunks @ [\<lparr> chunk_content = trim currentChunk, pageNumber = None,
                           startChar = currentPos - int (length currentChunk),
                           endChar = currentPos - 1, chunkIndex = idx \<rparr>])
             (reseed overlap currentChunk (trim sentence)) (idx + 1)
             (currentPos + int (length (trim sentence)) + 1)
      else plain_loop chunkSize overlap rest chunks
             (append_sentence currentChunk (trim sentence)) idx
             (currentPos + int (length (trim sentence)) + 1))"

definition plain_chunks :: "string \<Rightarrow> int \<Rightarrow> int \<Rightarrow> ChunkWithPage list" where
  "plain_chunks text chunkSize overlap =
     (case plain_loop chunkSize overlap (sentences_of text) [] [] 0 0 of
        (chunks, currentChunk, idx, currentPos) \<Rightarrow>
          if trim currentChunk \<noteq> []
          then chunks @ [\<lparr> chunk_content = trim currentChunk, pageNumber = None,
                             startChar = currentPos - int (length currentChunk),
                             endChar = currentPos - 1, chunkIndex = idx \<rparr>]
          else chunks)"

text \<open>The loop over the sentences of one page that is longer than the chunk size. Its
  state is the list of chunks, the running buffer, the start of the running chunk and
  the next index.\<close>

fun page_loop ::
    "int \<Rightarrow> int \<Rightarrow> int \<Rightarrow> string list \<Rightarrow> ChunkWithPage list \<Rightarrow> string \<Rightarrow> int \<Rightarrow> nat
      \<Rightarrow> ChunkWithPage list \<times> string \<times> int \<times> nat" where
  "page_loop chunkSize overlap pn [] chunks currentChunk chunkStartChar idx =
     (chunks, currentChunk, chunkStartChar, idx)"
| "page_loop chunkSize overlap pn (s # rest) chunks currentChunk chunkStartChar idx =
     (if exceeds chunkSize currentChunk (trim s)
      then (let chunkEndChar = chunkStartChar + int (length currentChunk) - 1
            in page_loop chunkSize overlap pn rest
                 (chunks @ [\<lparr> chunk_content = trim currentChunk, pageNumber = Some pn,
                               startChar = chunkStartChar, endChar = chunkEndChar,
                               chunkIndex = idx \<rparr>])
                 (reseed overlap currentChunk (trim s))
                 (chunkEndChar - int (length (join '' '' (overlapWords overlap currentChunk))))
                 (idx + 1))
      else page_loop chunkSize overlap pn rest chunks
             (append_sentence currentChunk (trim s)) chunkStartChar idx)"

definition page_chunks ::
    "int \<Rightarrow> int \<Rightarrow> ChunkWithPage list \<times> nat \<Rightarrow> page_span \<Rightarrow> ChunkWithPage list \<times> nat" where
  \<comment> \<open>the body of \<open>for (const page of pages)\<close>, on the chunks and the next index\<close>
  "page_chunks chunkSize overlap st pg =
     (case st of (chunks, idx) \<Rightarrow>
        if int (length (span_content pg)) \<le> chunkSize
        then (chunks @ [\<lparr> chunk_content = span_content pg,
                            pageNumber = Some (span_pageNumber pg),
                            startChar = span_startChar pg, endChar = span_endChar pg,
                            chunkIndex = idx \<rparr>], idx + 1)
        else (case page_loop chunkSize overlap (span_pageNumber pg)
                     (sentences_of (span_content pg)) chunks [] (span_startChar pg) idx of
                (chunks', currentChunk, chunkStartChar, idx') \<Rightarrow>
                  if trim currentChunk \<noteq> []
                  then (chunks' @ [\<lparr> chunk_content = trim currentChunk,
                                      pageNumber = Some (span_pageNumber pg),
                                      startChar = chunkStartChar, endChar = span_endChar pg,
                                      chunkIndex = idx' \<rparr>], idx' + 1)
                  else (chunks', idx')))"

definition chunkText :: "string \<Rightarrow> int \<Rightarrow> int \<Rightarrow> page_span list option \<Rightarrow> ChunkWithPage list" where
  "chunkText text chunkSize overlap pages =
     (case pages of
        None \<Rightarrow> plain_chunks text chunkSize overlap
      | Some ps \<Rightarrow>
          if ps \<noteq> [] then fst (foldl (page_chunks chunkSize overlap) ([], 0) ps)
          else plain_chunks text chunkSize overlap)"

definition contiguous :: "ChunkWithPage list \<times> nat \<Rightarrow> bool" where
  \<comment> \<open>the indices of the chunks are \<open>0, 1, ...\<close> and the next index is their number\<close>
  "contiguous st \<longleftrightarrow> map chunkIndex (fst st) = [0..<length (fst st)] \<and> snd st = length (fst st)"

section \<open>The character-window chunker of the worker\<close>

text \<open>A chunk of the worker: its identifier is the text \<open>chunk_\<close> followed by the index;
  the two positions are absent on the single chunk of a short text.\<close>

record worker_chunk =
  chunk_id :: nat
  wc_content :: string
  wc_chunkIndex :: nat
  totalChunks :: nat
  wc_length :: nat
  startPosition :: "int option"
  endPosition :: "int option"

fun collapse :: "bool \<Rightarrow> string \<Rightarrow> string" where
  \<comment> \<open>\<open>text.replace(/\s+/g, ' ')\<close>; the flag tells that the previous character was white space\<close>
  "collapse prev [] = []"
| "collapse prev (c # cs) =
     (if is_space c then (if prev then collapse True cs else CHR '' '' # collapse True cs)
      else c # collapse False cs)"

definition cleanText :: "string \<Rightarrow> string" where
  "cleanText text = trim (collapse False text)"

definition lastIndexOf :: "char \<Rightarrow> int \<Rightarrow> string \<Rightarrow> int" where
  \<comment> \<open>\<open>s.lastIndexOf(c, pos)\<close>: the last index at most \<open>pos\<close> that holds \<open>c\<close>, or -1\<close>
  "lastIndexOf c pos s =
     (let p = min (max pos 0) (int (length s) - 1);
          found = filter (\<lambda>i. s ! i = c) [0..<nat (p + 1)]
      in if found = [] then - 1 else int (last found))"

definition window_end :: "string \<Rightarrow> int \<Rightarrow> int \<Rightarrow> int" where
  "window_end t chunkSize start =
     (let end = start + chunkSize
      in if end < int (length t)
         then (let lastPeriod = lastIndexOf CHR ''.'' end t;
                   lastNewline = lastIndexOf CHR 0x0A end t;
                   lastSpace = lastIndexOf CHR '' '' end t;
                   breakPoint = max (max lastPeriod lastNewline) lastSpace
               in if 2 * breakPoint > 2 * start + chunkSize then breakPoint + 1 else end)
         else end)"

definition next_start :: "string \<Rightarrow> int \<Rightarrow> int \<Rightarrow> int \<Rightarrow> int" where
  \<comment> \<open>\<open>start = Math.max(end - overlap, start + 1)\<close>\<close>
  "next_start t chunkSize overlap start =
     max (window_end t chunkSize start - overlap) (start + 1)"

function window_loop ::
    "string \<Rightarrow> int \<Rightarrow> int \<Rightarrow> int \<Rightarrow> nat \<Rightarrow> worker_chunk list \<Rightarrow> worker_chunk list" where
  "window_loop t chunkSize overlap start idx chunks =
     (if start < int (length t)
      then (if trim (slice start (window_end t chunkSize start) t) \<noteq> []
            then window_loop t chunkSize overlap (next_start t chunkSize overlap start) (idx + 1)
                   (chunks @ [\<lparr> chunk_id = idx,
                                 wc_content = trim (slice start (window_end t chunkSize start) t),
                                 wc_chunkIndex = idx, totalChunks = 0,
                                 wc_length = length (trim (slice start (window_end t chunkSize start) t)),
                                 startPosition = Some start,
                                 endPosition = Some (window_end t chunkSize start) \<rparr>])
            else window_loop t chunkSize overlap (next_start t chunkSize overlap start) idx chunks)
      else chunks)"
  by pat_completeness auto
termination
  by (relation "measure (\<lambda>(t, chunkSize, overlap, start, idx, chunks). nat (int (length t) - start))")
     (auto simp: next_start_def)

declare window_loop.simps [simp del]

definition worker_chunkText :: "string \<Rightarrow> int \<Rightarrow> int \<Rightarrow> worker_chunk list" where
  "worker_chunkText text chunkSize overlap =
     (let t = cleanText text
      in if int (length t) \<le> chunkSize
         then [\<lparr> chunk_id = 0, wc_content = t, wc_chunkIndex = 0, totalChunks = 1,
                  wc_length = length t, startPosition = None, endPosition = None \<rparr>]
         else (let chunks = window_loop t chunkSize overlap 0 0 []
               in map (\<lambda>c. c\<lparr> totalChunks := length chunks \<rparr>) chunks))"


section \<open>The file-backed task queue and the worker loop\<close>

text \<open>A task of any of the three queues. The fields that only the handlers read (file
  name, chunks, vectors) are left out: the queue and the retry logic do not look at
  them, and what a handler does with them is given by the environment.\<close>

record task =
  task_id :: string
  documentId :: string
  retryCount :: "int option"
  maxRetries :: "int option"

datatype doc_status = Pending | Processing | Completed | Failed

text \<open>The state that the worker changes: the queue files, by queue name (a missing file
  reads as the empty queue), and the status field of the documents of the store.\<close>

record worker_state =
  queues :: "string \<Rightarrow> task list"
  doc_statuses :: "string \<Rightarrow> doc_status option"

definition pushToQueue :: "string \<Rightarrow> task \<Rightarrow> worker_state \<Rightarrow> worker_state" where
  "pushToQueue queueName t st = st\<lparr> queues := (queues st)(queueName := queues st queueName @ [t]) \<rparr>"

definition popFromQueue :: "string \<Rightarrow> worker_state \<Rightarrow> task option \<times> worker_state" where
  "popFromQueue queueName st =
     (case queues st queueName of
        [] \<Rightarrow> (None, st)
      | t # items \<Rightarrow> (Some t, st\<lparr> queues := (queues st)(queueName := items) \<rparr>))"

definition retryCount_or_0 :: "task \<Rightarrow> int" where
  \<comment> \<open>\<open>task.retryCount || 0\<close>\<close>
  "retryCount_or_0 t = (case retryCount t of None \<Rightarrow> 0 | Some n \<Rightarrow> n)"

definition maxRetries_or_3 :: "task \<Rightarrow> int" where
  \<comment> \<open>\<open>task.maxRetries || 3\<close>: an absent bound and the bound 0 both give 3\<close>
  "maxRetries_or_3 t = (case maxRetries t of None \<Rightarrow> 3 | Some n \<Rightarrow> if n = 0 then 3 else n)"

definition taskWithDefaults :: "task \<Rightarrow> task" where
  "taskWithDefaults t =
     t\<lparr> retryCount := Some (retryCount_or_0 t), maxRetries := Some (maxRetries_or_3 t) \<rparr>"

definition pushFileProcessingTask :: "task \<Rightarrow> worker_state \<Rightarrow> worker_state" where
  "pushFileProcessingTask t = pushToQueue ''file-processing'' (taskWithDefaults t)"

definition pushEmbeddingTask :: "task \<Rightarrow> worker_state \<Rightarrow> worker_state" where
  "pushEmbeddingTask t = pushToQueue ''embedding'' (taskWithDefaults t)"

definition pushVectorStorageTask :: "task \<Rightarrow> worker_state \<Rightarrow> worker_state" where
  "pushVectorStorageTask t = pushToQueue ''vector-storage'' (taskWithDefaults t)"

definition retryFailedTask :: "string \<Rightarrow> task \<Rightarrow> worker_state \<Rightarrow> bool \<times> worker_state" where
  "retryFailedTask queueName t st =
     (let retryCount' = retryCount_or_0 t + 1;
          maxRetries' = maxRetries_or_3 t
      in if retryCount' \<le> maxRetries'
         then (True, pushToQueue queueName (t\<lparr> retryCount := Some retryCount' \<rparr>) st)
         else (False, st))"

text \<open>What a handler does depends on the download, the parsers, the embedding service and
  the vector index. The environment gives the outcome of one run: the handler completes,
  and \<open>Done t\<close> names the task that it builds for the next stage (the vector-storage
  handler builds none and ignores it); or it throws, and \<open>Thrown stored\<close> tells whether a
  status update in its \<open>catch\<close> block reaches the store.\<close>

datatype outcome = Done task | Thrown bool

definition set_status :: "string \<Rightarrow> doc_status \<Rightarrow> worker_state \<Rightarrow> worker_state" where
  "set_status d s st = st\<lparr> doc_statuses := (doc_statuses st)(d := Some s) \<rparr>"

text \<open>Each handler returns whether it completed, and the new state.\<close>

definition processFile :: "task \<Rightarrow> outcome \<Rightarrow> worker_state \<Rightarrow> bool \<times> worker_state" where
  "processFile t out st =
     (case out of
        Done embeddingTask \<Rightarrow>
          (True, pushEmbeddingTask embeddingTask (set_status (documentId t) Processing st))
      | Thrown stored \<Rightarrow>
          (False, if stored then set_status (documentId t) Failed st else st))"

definition processEmbedding :: "task \<Rightarrow> outcome \<Rightarrow> worker_state \<Rightarrow> bool \<times> worker_state" where
  \<comment> \<open>the \<open>catch\<close> block logs and throws again; it does not touch the store\<close>
  "processEmbedding t out st =
     (case out of
        Done vectorTask \<Rightarrow> (True, pushVectorStorageTask vectorTask st)
      | Thrown stored \<Rightarrow> (False, st))"

definition processVectorStorage :: "task \<Rightarrow> outcome \<Rightarrow> worker_state \<Rightarrow> bool \<times> worker_state" where
  "processVectorStorage t out st =
     (case out of
        Done unused \<Rightarrow> (True, set_status (documentId t) Completed st)
      | Thrown stored \<Rightarrow>
          (False, if stored then set_status (documentId t) Failed st else st))"

definition run_task ::
    "string \<Rightarrow> (task \<Rightarrow> outcome \<Rightarrow> worker_state \<Rightarrow> bool \<times> worker_state) \<Rightarrow> task \<Rightarrow> outcome
      \<Rightarrow> worker_state \<Rightarrow> worker_state" where
  \<comment> \<open>\<open>try { await handler(task) } catch { await retryFailedTask(queueName, task) }\<close>\<close>
  "run_task queueName handler t out st =
     (case handler t out st of
        (True, st') \<Rightarrow> st'
      | (False, st') \<Rightarrow> snd (retryFailedTask queueName t st'))"

definition worker_iteration :: "outcome \<Rightarrow> worker_state \<Rightarrow> worker_state" where
  \<comment> \<open>one pass of the body of \<open>while (true)\<close> in \<open>startWorker\<close>; without a task it sleeps\<close>
  "worker_iteration out st =
     (case popFromQueue ''file-processing'' st of
        (Some fileTask, st1) \<Rightarrow> run_task ''file-processing'' processFile fileTask out st1
      | (None, st1) \<Rightarrow>
     (case popFromQueue ''embedding'' st1 of
        (Some embeddingTask, st2) \<Rightarrow> run_task ''embedding'' processEmbedding embeddingTask out st2
      | (None, st2) \<Rightarrow>
     (case popFromQueue ''vector-storage'' st2 of
        (Some vectorTask, st3) \<Rightarrow>
          run_task ''vector-storage'' processVectorStorage vectorTask out st3
      | (None, st3) \<Rightarrow> st3)))"

definition startWorker :: "outcome list \<Rightarrow> worker_state \<Rightarrow> worker_state" where
  \<comment> \<open>the passes of the loop for the given outcomes, one after the other\<close>
  "startWorker outs st = foldl (\<lambda>s out. worker_iteration out s) st outs"

definition new_task :: "string \<Rightarrow> string \<Rightarrow> task" where
  \<comment> \<open>a task as a producer builds it, without retry fields\<close>
  "new_task i d = \<lparr> task_id = i, documentId = d, retryCount = None, maxRetries = None \<rparr>"

definition upload_state :: "string \<Rightarrow> worker_state" where
  \<comment> \<open>empty queues and one pending document\<close>
  "upload_state d = \<lparr> queues = (\<lambda>q. []), doc_statuses = (\<lambda>x. None)(d := Some Pending) \<rparr>"

definition queue_lengths :: "worker_state \<Rightarrow> nat \<times> nat \<times> nat" where
  "queue_lengths st =
     (length (queues st ''file-processing''), length (queues st ''embedding''),
      length (queues st ''vector-storage''))"

section \<open>The recommendation engine\<close>

text \<open>The fixed texts of the engine and of the chat route are Chinese. They are given
  here by their UTF-8 bytes; the functions below only compare them and pass them on.\<close>

definition category_basic_concept :: string where
  \<comment> \<open>the category of basic concepts\<close>
  "category_basic_concept =
     [CHR 0xE5, CHR 0x9F, CHR 0xBA, CHR 0xE7, CHR 0xA1, CHR 0x80, CHR 0xE6, CHR 0xA6,
      CHR 0x82, CHR 0xE5, CHR 0xBF, CHR 0xB5]"

definition category_practice :: string where
  \<comment> \<open>the category of practice\<close>
  "category_practice =
     [CHR 0xE5, CHR 0xAE, CHR 0x9E, CHR 0xE8, CHR 0xB7, CHR 0xB5, CHR 0xE6, CHR 0x93,
      CHR 0x8D, CHR 0xE4, CHR 0xBD, CHR 0x9C]"

definition category_case_study :: string where
  \<comment> \<open>the category of case studies\<close>
  "category_case_study =
     [CHR 0xE6, CHR 0xA1, CHR 0x88, CHR 0xE4, CHR 0xBE, CHR 0x8B, CHR 0xE5, CHR 0x88,
      CHR 0x86, CHR 0xE6, CHR 0x9E, CHR 0x90]"

definition category_deep_dive :: string where
  \<comment> \<open>the category of deeper study\<close>
  "category_deep_dive =
     [CHR 0xE6, CHR 0xB7, CHR 0xB1, CHR 0xE5, CHR 0x85, CHR 0xA5, CHR 0xE5, CHR 0xAD,
      CHR 0xA6, CHR 0xE4, CHR 0xB9, CHR 0xA0]"

definition category_related_topic :: string where
  \<comment> \<open>the category of related topics\<close>
  "category_related_topic =
     [CHR 0xE7, CHR 0x9B, CHR 0xB8, CHR 0xE5, CHR 0x85, CHR 0xB3, CHR 0xE4, CHR 0xB8,
      CHR 0xBB, CHR 0xE9, CHR 0xA2, CHR 0x98]"

definition fallback_question_1 :: string where
  \<comment> \<open>what are the basic concepts of e-commerce\<close>
  "fallback_question_1 =
     [CHR 0xE7, CHR 0x94, CHR 0xB5, CHR 0xE5, CHR 0xAD, CHR 0x90, CHR 0xE5, CHR 0x95,
      CHR 0x86, CHR 0xE5, CHR 0x8A, CHR 0xA1, CHR 0xE7, CHR 0x9A, CHR 0x84, CHR 0xE5,
      CHR 0x9F, CHR 0xBA, CHR 0xE6, CHR 0x9C, CHR 0xAC, CHR 0xE6, CHR 0xA6, CHR 0x82,
      CHR 0xE5, CHR 0xBF, CHR 0xB5, CHR 0xE6, CHR 0x98, CHR 0xAF, CHR 0xE4, CHR 0xBB,
      CHR 0x80, CHR 0xE4, CHR 0xB9, CHR 0x88, CHR 0xEF, CHR 0xBC, CHR 0x9F]"

definition fallback_context_1 :: string where
  \<comment> \<open>basic e-commerce knowledge\<close>
  "fallback_context_1 =
     [CHR 0xE5, CHR 0x9F, CHR 0xBA, CHR 0xE7, CHR 0xA1, CHR 0x80, CHR 0xE7, CHR 0x94,
      CHR 0xB5, CHR 0xE5, CHR 0x95, CHR 0x86, CHR 0xE7, CHR 0x9F, CHR 0xA5, CHR 0xE8,
      CHR 0xAF, CHR 0x86]"

definition fallback_question_2 :: string where
  \<comment> \<open>how to start operating an e-commerce shop\<close>
  "fallback_question_2 =
     [CHR 0xE5, CHR 0xA6, CHR 0x82, CHR 0xE4, CHR 0xBD, CHR 0x95, CHR 0xE5, CHR 0xBC,
      CHR 0x80, CHR 0xE5, CHR 0xA7, CHR 0x8B, CHR 0xE7, CHR 0x94, CHR 0xB5, CHR 0xE5,
      CHR 0x95, CHR 0x86, CHR 0xE8, CHR 0xBF, CHR 0x90, CHR 0xE8, CHR 0x90, CHR 0xA5,
      CHR 0xEF, CHR 0xBC, CHR 0x9F]"

definition fallback_context_2 :: string where
  \<comment> \<open>introduction to e-commerce operations\<close>
  "fallback_context_2 =
     [CHR 0xE7, CHR 0x94, CHR 0xB5, CHR 0xE5, CHR 0x95, CHR 0x86, CHR 0xE8, CHR 0xBF,
      CHR 0x90, CHR 0xE8, CHR 0x90, CHR 0xA5, CHR 0xE5, CHR 0x85, CHR 0xA5, CHR 0xE9,
      CHR 0x97, CHR 0xA8]"

definition fallback_question_3 :: string where
  \<comment> \<open>what are the advantages of live-stream e-commerce\<close>
  "fallback_question_3 =
     [CHR 0xE7, CHR 0x9B, CHR 0xB4, CHR 0xE6, CHR 0x92, CHR 0xAD, CHR 0xE7, CHR 0x94,
      CHR 0xB5, CHR 0xE5, CHR 0x95, CHR 0x86, CHR 0xE6, CHR 0x9C, CHR 0x89, CHR 0xE5,
      CHR 0x93, CHR 0xAA, CHR 0xE4, CHR 0xBA, CHR 0x9B, CHR 0xE4, CHR 0xBC, CHR 0x98,
      CHR 0xE5, CHR 0x8A, CHR 0xBF, CHR 0xEF, CHR 0xBC, CHR 0x9F]"

definition fallback_context_3 :: string where
  \<comment> \<open>live-stream e-commerce knowledge\<close>
  "fallback_context_3 =
     [CHR 0xE7, CHR 0x9B, CHR 0xB4, CHR 0xE6, CHR 0x92, CHR 0xAD, CHR 0xE7, CHR 0x94,
      CHR 0xB5, CHR 0xE5, CHR 0x95, CHR 0x86, CHR 0xE7, CHR 0x9F, CHR 0xA5, CHR 0xE8,
      CHR 0xAF, CHR 0x86]"

record RecommendedQuestion =
  rq_id :: string
  question :: string
  category :: string
  relevanceScore :: real
  rq_context :: string
  rq_source :: "string option"

record RecommendationConfig =
  maxRecommendations :: int
  diversityThreshold :: real
  relevanceThreshold :: real
  categories :: "string list"

definition default_config :: RecommendationConfig where
  "default_config =
     \<lparr> maxRecommendations = 3, diversityThreshold = 0.7, relevanceThreshold = 0.6,
       categories = [category_basic_concept, category_practice, category_case_study,
                     category_deep_dive, category_related_topic] \<rparr>"

text \<open>The diversity filter. The set of used categories is kept as a list without
  repetition.\<close>

fun diversity_loop ::
    "RecommendationConfig \<Rightarrow> RecommendedQuestion list \<Rightarrow> RecommendedQuestion list \<Rightarrow> string list
      \<Rightarrow> RecommendedQuestion list" where
  "diversity_loop cfg [] filtered usedCategories = filtered"
| "diversity_loop cfg (q # qs) filtered usedCategories =
     (if relevanceScore q \<ge> relevanceThreshold cfg \<and>
         (category q \<notin> set usedCategories \<or> length usedCategories < length (categories cfg))
      then diversity_loop cfg qs (filtered @ [q]) (List.insert (category q) usedCategories)
      else diversity_loop cfg qs filtered usedCategories)"

definition applyDiversityFilter ::
    "RecommendationConfig \<Rightarrow> RecommendedQuestion list \<Rightarrow> RecommendedQuestion list" where
  "applyDiversityFilter cfg questions = diversity_loop cfg questions [] []"

text \<open>The first three steps of the pipeline read Chinese keyword tables and call the
  embedding service, the vector index and the generators of identifiers. They are taken
  from the environment: each returns its value or throws. The types of the conversation
  context, of its analysis and of the sources are those of the environment.\<close>

record ('c, 'a, 's) steps =
  analyzeContext :: "'c \<Rightarrow> js_error + 'a"
  generateCandidateQuestions :: "'a \<Rightarrow> 's \<Rightarrow> js_error + RecommendedQuestion list"
  scoreQuestions :: "RecommendedQuestion list \<Rightarrow> 'a \<Rightarrow> js_error + RecommendedQuestion list"

definition generateRecommendations_try ::
    "RecommendationConfig \<Rightarrow> ('c, 'a, 's) steps \<Rightarrow> 'c \<Rightarrow> 's \<Rightarrow> js_error + RecommendedQuestion list" where
  \<comment> \<open>the \<open>try\<close> block of \<open>generateRecommendations\<close>\<close>
  "generateRecommendations_try cfg env context sources =
     (case analyzeContext env context of
        Inl e \<Rightarrow> Inl e
      | Inr contextAnalysis \<Rightarrow>
     (case generateCandidateQuestions env contextAnalysis sources of
        Inl e \<Rightarrow> Inl e
      | Inr candidateQuestions \<Rightarrow>
     (case scoreQuestions env candidateQuestions contextAnalysis of
        Inl e \<Rightarrow> Inl e
      | Inr scoredQuestions \<Rightarrow>
          Inr (slice 0 (maxRecommendations cfg) (applyDiversityFilter cfg scoredQuestions)))))"

definition getFallbackRecommendations :: "(nat \<Rightarrow> string) \<Rightarrow> RecommendedQuestion list" where
  \<comment> \<open>\<open>uuid n\<close> is the \<open>n\<close>-th identifier that \<open>uuidv4()\<close> returns\<close>
  "getFallbackRecommendations uuid =
     [\<lparr> rq_id = uuid 0, question = fallback_question_1, category = category_basic_concept,
        relevanceScore = 0.6, rq_context = fallback_context_1, rq_source = None \<rparr>,
      \<lparr> rq_id = uuid 1, question = fallback_question_2, category = category_practice,
        relevanceScore = 0.6, rq_context = fallback_context_2, rq_source = None \<rparr>,
      \<lparr> rq_id = uuid 2, question = fallback_question_3, category = category_related_topic,
        relevanceScore = 0.6, rq_context = fallback_context_3, rq_source = None \<rparr>]"

definition generateRecommendations ::
    "RecommendationConfig \<Rightarrow> (nat \<Rightarrow> string) \<Rightarrow> ('c, 'a, 's) steps \<Rightarrow> 'c \<Rightarrow> 's
      \<Rightarrow> RecommendedQuestion list" where
  "generateRecommendations cfg uuid env context sources =
     (case generateRecommendations_try cfg env context sources of
        Inr r \<Rightarrow> r
      | Inl e \<Rightarrow> getFallbackRecommendations uuid)"

definition step_throws :: "('c, 'a, 's) steps \<Rightarrow> 'c \<Rightarrow> 's \<Rightarrow> bool" where
  \<comment> \<open>one of the three steps throws\<close>
  "step_throws env context sources =
     (case analyzeContext env context of
        Inl e \<Rightarrow> True
      | Inr contextAnalysis \<Rightarrow>
     (case generateCandidateQuestions env contextAnalysis sources of
        Inl e \<Rightarrow> True
      | Inr candidateQuestions \<Rightarrow> isl (scoreQuestions env candidateQuestions contextAnalysis)))"

definition failing_steps :: "(unit, unit, unit) steps" where
  \<comment> \<open>an environment in which the analysis of the context throws\<close>
  "failing_steps =
     \<lparr> analyzeContext = (\<lambda>c. Inl FetchError),
       generateCandidateQuestions = (\<lambda>a s. Inr []),
       scoreQuestions = (\<lambda>qs a. Inr qs) \<rparr>"

definition generic_question :: "string \<Rightarrow> string \<Rightarrow> real \<Rightarrow> RecommendedQuestion" where
  "generic_question i c r =
     \<lparr> rq_id = i, question = ''more?'', category = c, relevanceScore = r,
       rq_context = [], rq_source = None \<rparr>"

definition four_candidates :: "(unit, unit, unit) steps" where
  \<comment> \<open>an environment in which no step throws and four candidates are scored\<close>
  "four_candidates =
     \<lparr> analyzeContext = (\<lambda>c. Inr ()),
       generateCandidateQuestions = (\<lambda>a s. Inr
          [generic_question ''1'' category_practice 0.9,
           generic_question ''2'' category_practice 0.8,
           generic_question ''3'' category_deep_dive 0.7,
           generic_question ''4'' category_related_topic 0.65]),
       scoreQuestions = (\<lambda>qs a. Inr qs) \<rparr>"

definition numbered :: "nat \<Rightarrow> string" where
  \<comment> \<open>a supply of identifiers for the examples\<close>
  "numbered n = replicate (Suc n) CHR ''u''"

section \<open>The streaming chat orchestrator\<close>

definition defaultContent :: string where
  \<comment> \<open>the default greeting, sent when the completion service gave no text\<close>
  "defaultContent =
     [CHR 0xE4, CHR 0xBD, CHR 0xA0, CHR 0xE5, CHR 0xA5, CHR 0xBD, CHR 0xEF, CHR 0xBC,
      CHR 0x81, CHR 0xE6, CHR 0x88, CHR 0x91, CHR 0xE6, CHR 0x98, CHR 0xAF, CHR 0x41,
      CHR 0x49, CHR 0xE5, CHR 0x8A, CHR 0xA9, CHR 0xE6, CHR 0x89, CHR 0x8B, CHR 0xEF,
      CHR 0xBC, CHR 0x8C, CHR 0xE5, CHR 0xBE, CHR 0x88, CHR 0xE9, CHR 0xAB, CHR 0x98,
      CHR 0xE5, CHR 0x85, CHR 0xB4, CHR 0xE4, CHR 0xB8, CHR 0xBA, CHR 0xE6, CHR 0x82,
      CHR 0xA8, CHR 0xE6, CHR 0x9C, CHR 0x8D, CHR 0xE5, CHR 0x8A, CHR 0xA1, CHR 0xE3,
      CHR 0x80, CHR 0x82]"

definition apologyContent :: string where
  \<comment> \<open>the apology: the service is not available for the moment\<close>
  "apologyContent =
     [CHR 0xE6, CHR 0x8A, CHR 0xB1, CHR 0xE6, CHR 0xAD, CHR 0x89, CHR 0xEF, CHR 0xBC,
      CHR 0x8C, CHR 0x41, CHR 0x49, CHR 0xE6, CHR 0x9C, CHR 0x8D, CHR 0xE5, CHR 0x8A,
      CHR 0xA1, CHR 0xE6, CHR 0x9A, CHR 0x82, CHR 0xE6, CHR 0x97, CHR 0xB6, CHR 0xE4,
      CHR 0xB8, CHR 0x8D, CHR 0xE5, CHR 0x8F, CHR 0xAF, CHR 0xE7, CHR 0x94, CHR 0xA8,
      CHR 0xEF, CHR 0xBC, CHR 0x8C, CHR 0xE8, CHR 0xAF, CHR 0xB7, CHR 0xE7, CHR 0xA8,
      CHR 0x8D, CHR 0xE5, CHR 0x90, CHR 0x8E, CHR 0xE9, CHR 0x87, CHR 0x8D, CHR 0xE8,
      CHR 0xAF, CHR 0x95, CHR 0xE3, CHR 0x80, CHR 0x82]"

text \<open>The body of the answer of the completion service: absent, or the results of the
  successive calls of \<open>reader.read()\<close>, each a decoded chunk or a throw; after the last
  one the reader reports \<open>done\<close>.\<close>

datatype read_result = Bytes string | ReadThrows

datatype upstream_body = NoBody | Body "read_result list"

text \<open>The sources of the final event are the fused sources, or in the \<open>catch\<close> block
  the file name, the snippet and the score of each reranked document.\<close>

datatype final_source = FusedSource source | PlainSource string string real

record final_data =
  fd_sources :: "final_source list"
  fd_recommendations :: "RecommendedQuestion list"
  hasRelevantContext :: bool
  multimediaCount :: nat

datatype stream_data = Content string | Final final_data

datatype controller_call = Enqueue stream_data | Close

definition line_data :: "string \<Rightarrow> string option" where
  \<comment> \<open>the data of a line, \<open>None\<close> where the loop says \<open>continue\<close>\<close>
  "line_data line =
     (if take 6 line = ''data: ''
      then (if drop 6 line = ''[DONE]'' then None else Some (drop 6 line))
      else if trim line \<noteq> [] \<and> hd (trim line) = CHR ''{'' \<and> last (trim line) = CHR ''}''
      then Some (trim line)
      else None)"

text \<open>\<open>JSON.parse(data).choices?.[0]?.delta?.content\<close> belongs to the language: the
  parameter \<open>delta\<close> gives the content of a data text, \<open>None\<close> when the parser throws or
  the field is absent; the inner \<open>catch\<close> only logs, and an empty content is skipped.\<close>

definition line_content :: "(string \<Rightarrow> string option) \<Rightarrow> string \<Rightarrow> string option" where
  "line_content delta line =
     (case line_data line of
        None \<Rightarrow> None
      | Some d \<Rightarrow>
          if trim d = [] then None
          else (case delta d of
                  None \<Rightarrow> None
                | Some c \<Rightarrow> if c = [] then None else Some c))"

definition chunk_contents :: "(string \<Rightarrow> string option) \<Rightarrow> string \<Rightarrow> string list" where
  \<comment> \<open>the contents that one chunk makes the route forward, in order\<close>
  "chunk_contents delta chunk =
     (if trim chunk = [] then []
      else List.map_filter (line_content delta) (split_char CHR 0x0A chunk))"

text \<open>The reading loop, on the response so far and the data enqueued so far. It returns
  the error of a read that throws, if any.\<close>

fun read_loop ::
    "(string \<Rightarrow> string option) \<Rightarrow> read_result list \<Rightarrow> string \<Rightarrow> stream_data list
      \<Rightarrow> js_error option \<times> string \<times> stream_data list" where
  "read_loop delta [] aiResponse sent = (None, aiResponse, sent)"
| "read_loop delta (ReadThrows # rs) aiResponse sent = (Some ReadError, aiResponse, sent)"
| "read_loop delta (Bytes chunk # rs) aiResponse sent =
     read_loop delta rs (aiResponse @ concat (chunk_contents delta chunk))
       (sent @ map Content (chunk_contents delta chunk))"

definition final_ok ::
    "RecommendedQuestion list \<Rightarrow> RerankResult list \<Rightarrow> multimedia_result list \<Rightarrow> final_data" where
  "final_ok recommendations relevantContext multimediaResults =
     \<lparr> fd_sources = map FusedSource (allSources relevantContext multimediaResults),
       fd_recommendations = recommendations,
       hasRelevantContext = (length relevantContext > 0 \<or> length multimediaResults > 0),
       multimediaCount = length multimediaResults \<rparr>"

definition final_error :: "RerankResult list \<Rightarrow> final_data" where
  "final_error relevantContext =
     \<lparr> fd_sources = map (\<lambda>ctx. PlainSource (filename ctx) (snippet (content ctx)) (score ctx))
                         relevantContext,
       fd_recommendations = [],
       hasRelevantContext = (length relevantContext > 0),
       multimediaCount = 0 \<rparr>"

definition start_stream ::
    "(string \<Rightarrow> string option) \<Rightarrow> upstream_body \<Rightarrow> RecommendedQuestion list \<Rightarrow> RerankResult list
      \<Rightarrow> multimedia_result list \<Rightarrow> controller_call list" where
  \<comment> \<open>the method \<open>start\<close> of the stream: its calls on the controller, in order; \<open>recommendations\<close> is what
      \<open>generateRecommendations\<close> returns\<close>
  "start_stream delta body recommendations relevantContext multimediaResults =
     (case (case body of
              NoBody \<Rightarrow> (Some NoResponseBody, [], [])
            | Body rs \<Rightarrow> read_loop delta rs [] []) of
        (None, aiResponse, sent) \<Rightarrow>
          map Enqueue
            (sent @ (if trim aiResponse = [] then [Content defaultContent] else [])
                  @ [Final (final_ok recommendations relevantContext multimediaResults)])
          @ [Close]
      | (Some e, aiResponse, sent) \<Rightarrow>
          map Enqueue (sent @ [Content apologyContent, Final (final_error relevantContext)])
          @ [Close])"

definition is_final :: "controller_call \<Rightarrow> bool" where
  "is_final c = (case c of Enqueue (Final p) \<Rightarrow> True | Enqueue (Content s) \<Rightarrow> False | Close \<Rightarrow> False)"

definition read_fails :: "upstream_body \<Rightarrow> bool" where
  \<comment> \<open>after an answer that is \<open>ok\<close>: the body is absent, or a read throws\<close>
  "read_fails body = (case body of NoBody \<Rightarrow> True | Body rs \<Rightarrow> ReadThrows \<in> set rs)"

definition contents :: "string list \<Rightarrow> controller_call list" where
  "contents cs = map (\<lambda>c. Enqueue (Content c)) cs"

definition openai_delta :: "string \<Rightarrow> string option" where
  \<comment> \<open>a parser for the examples: it knows the data texts of two tokens\<close>
  \<open>openai_delta d =
     (if d = ''{"choices":[{"delta":{"content":"Hi"}}]}'' then Some ''Hi''
      else if d = ''{"choices":[{"delta":{"content":" there"}}]}'' then Some '' there''
      else None)\<close>

fun forwarded :: "(string \<Rightarrow> string option) \<Rightarrow> read_result list \<Rightarrow> string list" where
  \<comment> \<open>the contents of the chunks that are read before a read throws\<close>
  "forwarded delta [] = []"
| "forwarded delta (ReadThrows # rs) = []"
| "forwarded delta (Bytes chunk # rs) = chunk_contents delta chunk @ forwarded delta rs"


text \<open>The call of the completion service comes before the stream: when the request
  throws or the answer is not \<open>ok\<close>, the route throws before it builds the stream, and
  its outer \<open>catch\<close> answers with a JSON error of status 500. The event stream exists
  only for an answer that is \<open>ok\<close>.\<close>

datatype completion_call = CallThrows | StatusNotOk | StatusOk upstream_body

datatype http_response = JsonError500 | EventStream "controller_call list"

definition POST_response ::
    "(string \<Rightarrow> string option) \<Rightarrow> completion_call \<Rightarrow> RecommendedQuestion list \<Rightarrow> RerankResult list
      \<Rightarrow> multimedia_result list \<Rightarrow> http_response" where
  "POST_response delta call recommendations relevantContext multimediaResults =
     (case call of
        CallThrows \<Rightarrow> JsonError500
      | StatusNotOk \<Rightarrow> JsonError500
      | StatusOk body \<Rightarrow>
          EventStream (start_stream delta body recommendations relevantContext multimediaResults))"

definition calls_of :: "http_response \<Rightarrow> controller_call list" where
  \<comment> \<open>the events that the client receives: those of the stream, none with the JSON error\<close>
  "calls_of r = (case r of JsonError500 \<Rightarrow> [] | EventStream calls \<Rightarrow> calls)"


section \<open>Properties\<close>

lemma searchMatches_scores:
  "map score (searchMatches ms) = filter (\<lambda>s. s > 0.6) (map (\<lambda>m. or_zero (match_score m)) ms)"
  by (induction ms) (simp_all add: searchMatches_def to_search_match_def)

lemma searchMatches_scenario:
  "length (searchMatches [scored 0.9, scored 0.55, scored 0.7]) = 2"
  by (simp add: searchMatches_def scored_def or_zero_def)

text \<open>
  Claim C6. The claim lets every match whose score is not below the floor 0.6 proceed to
  reranking. The filter of the route keeps a match only when its score is strictly
  greater than 0.6: a match whose score is exactly 0.6 is dropped.
\<close>

theorem searchMatches_drops_floor: "searchMatches [scored 0.6] = []"
  by (simp add: searchMatches_def scored_def or_zero_def)

subsection \<open>Sorting and slicing\<close>

lemma slice0_take: "0 \<le> k \<Longrightarrow> slice 0 k xs = take (nat k) xs"
  by (simp add: slice_def slice_index_def Let_def min_def)

lemma sorted_desc_sort: "sorted_desc (map f (sort_desc f xs))"
proof -
  have "map uminus (map f (sort_key (\<lambda>x. - f x) xs)) = map (\<lambda>x. - f x) (sort_key (\<lambda>x. - f x) xs)"
    by simp
  then show ?thesis unfolding sorted_desc_def sort_desc_def by (simp only: sorted_sort_key)
qed

lemma sorted_desc_take: "sorted_desc (map f xs) \<Longrightarrow> sorted_desc (map f (take n xs))"
  unfolding sorted_desc_def by (simp add: take_map [symmetric] sorted_wrt_take)

lemma set_sort_desc: "set (sort_desc f xs) = set xs"
  by (simp add: sort_desc_def)

lemma length_sort_desc: "length (sort_desc f xs) = length xs"
  by (simp add: sort_desc_def)


subsection \<open>The fallback of the reranker\<close>

lemma keyword_hits_ok:
  "\<forall>w \<in> set ws. rx w c \<noteq> None \<Longrightarrow>
   keyword_hits rx ws c = Inr (sum_list (map (\<lambda>w. case rx w c of None \<Rightarrow> 0 | Some n \<Rightarrow> n) ws))"
  by (induction ws) auto

lemma keyword_hits_throws:
  "\<exists>w \<in> set ws. rx w c = None \<Longrightarrow> keyword_hits rx ws c = Inl SyntaxError"
proof (induction ws)
  case Nil
  then show ?case by simp
next
  case (Cons a ws)
  show ?case
  proof (cases "rx a c")
    case None
    then show ?thesis by simp
  next
    case (Some n)
    with Cons.prems have "\<exists>w \<in> set ws. rx w c = None" by auto
    then have "keyword_hits rx ws c = Inl SyntaxError" by (rule Cons.IH)
    with Some show ?thesis by simp
  qed
qed

lemma map_try_ok: "\<forall>x \<in> set xs. f x = Inr (g x) \<Longrightarrow> map_try f xs = Inr (map g xs)"
  by (induction xs) auto

lemma map_try_throws:
  assumes "\<exists>x \<in> set xs. f x = Inl e"
    and "\<forall>x \<in> set xs. \<forall>e'. f x = Inl e' \<longrightarrow> e' = e"
  shows "map_try f xs = Inl e"
  using assms
proof (induction xs)
  case Nil
  then show ?case by simp
next
  case (Cons a xs)
  show ?case
  proof (cases "f a")
    case (Inl e')
    with Cons.prems(2) have "e' = e" by simp
    with Inl show ?thesis by simp
  next
    case (Inr y)
    with Cons.prems(1) have "\<exists>x \<in> set xs. f x = Inl e" by auto
    moreover from Cons.prems(2) have "\<forall>x \<in> set xs. \<forall>e'. f x = Inl e' \<longrightarrow> e' = e" by simp
    ultimately have "map_try f xs = Inl e" by (rule Cons.IH)
    with Inr show ?thesis by simp
  qed
qed

lemma score_match_ok:
  "\<forall>w \<in> set (queryWords_of query). rx w (toLowerCase (content m)) \<noteq> None \<Longrightarrow>
   score_match rx (queryWords_of query) m = Inr (pattern_result rx query m)"
  by (simp add: score_match_def keyword_hits_ok pattern_result_def pattern_score_def
      patternDensity_def keywordScore_def lengthScore_def unmodified_def Let_def)

lemma score_match_throws:
  "\<exists>w \<in> set ws. rx w (toLowerCase (content m)) = None \<Longrightarrow> score_match rx ws m = Inl SyntaxError"
  by (simp add: score_match_def keyword_hits_throws)

lemma score_match_error: "score_match rx ws m = Inl e \<Longrightarrow> e = SyntaxError"
  by (cases "\<exists>w \<in> set ws. rx w (toLowerCase (content m)) = None")
     (auto simp: score_match_def keyword_hits_throws keyword_hits_ok Let_def)

lemma try_ok:
  "rx_accepts rx query matches \<Longrightarrow>
   rerankBySimilarity_try rx query matches topK =
     Inr (slice 0 topK (sort_desc score (map (pattern_result rx query) matches)))"
  by (simp add: rerankBySimilarity_try_def rx_accepts_def
      map_try_ok [where g = "pattern_result rx query"] score_match_ok)

lemma try_throws:
  "\<not> rx_accepts rx query matches \<Longrightarrow> rerankBySimilarity_try rx query matches topK = Inl SyntaxError"
proof -
  assume "\<not> rx_accepts rx query matches"
  then obtain m where m: "m \<in> set matches"
      "\<exists>w \<in> set (queryWords_of query). rx w (toLowerCase (content m)) = None"
    unfolding rx_accepts_def by auto
  from m(2) have "score_match rx (queryWords_of query) m = Inl SyntaxError"
    by (rule score_match_throws)
  with m(1) have "\<exists>m \<in> set matches. score_match rx (queryWords_of query) m = Inl SyntaxError"
    by blast
  then have "map_try (score_match rx (queryWords_of query)) matches = Inl SyntaxError"
    by (rule map_try_throws) (auto dest: score_match_error)
  then show ?thesis by (simp add: rerankBySimilarity_try_def)
qed


subsection \<open>The map of unique sources\<close>

lemma map_set_keys_in: "k \<in> fst ` set m \<Longrightarrow> map fst (map_set k v m) = map fst m"
  by (induction m) force+

lemma map_set_keys_out: "k \<notin> fst ` set m \<Longrightarrow> map fst (map_set k v m) = map fst m @ [k]"
  by (induction m) auto

lemma map_set_distinct: "distinct (map fst m) \<Longrightarrow> distinct (map fst (map_set k v m))"
  by (cases "k \<in> fst ` set m") (simp_all add: map_set_keys_in map_set_keys_out)

lemma map_of_map_set: "map_of (map_set k v m) = (map_of m)(k \<mapsto> v)"
  by (induction m) (auto simp: fun_eq_iff)

lemma map_of_offer:
  "map_of (offer m s) =
     (if (case map_of m (src_filename s) of None \<Rightarrow> True | Some old \<Rightarrow> src_score old < src_score s)
      then (map_of m)(src_filename s \<mapsto> s) else map_of m)"
  by (simp add: offer_def map_of_map_set split: option.splits)

lemma best_in_offer:
  assumes "\<And>k. best_in seen k (f k)"
  shows "best_in (seen @ [s]) k
           ((if (case f (src_filename s) of None \<Rightarrow> True | Some old \<Rightarrow> src_score old < src_score s)
             then f(src_filename s \<mapsto> s) else f) k)"
proof (cases "k = src_filename s")
  case True
  show ?thesis
  proof (cases "f (src_filename s)")
    case None
    with assms [of "src_filename s"] have "src_filename s \<notin> src_filename ` set seen"
      by (simp add: best_in_def)
    then have "\<forall>c \<in> set seen. src_filename c \<noteq> src_filename s" by (auto simp: image_iff)
    with None True show ?thesis by (simp add: best_in_def)
  next
    case (Some old)
    with assms [of "src_filename s"] have old: "src_filename old = src_filename s" "old \<in> set seen"
      "\<forall>c \<in> set seen. src_filename c = src_filename s \<longrightarrow> src_score c \<le> src_score old"
      by (simp_all add: best_in_def)
    show ?thesis
    proof (cases "src_score old < src_score s")
      case True
      with old(3) have "\<forall>c \<in> set seen. src_filename c = src_filename s \<longrightarrow> src_score c \<le> src_score s"
        by fastforce
      with True Some \<open>k = src_filename s\<close> show ?thesis by (simp add: best_in_def)
    next
      case False
      with old Some \<open>k = src_filename s\<close> show ?thesis by (simp add: best_in_def)
    qed
  qed
next
  case False
  have "best_in (seen @ [s]) k (f k)"
    using assms [of k] False by (cases "f k") (auto simp: best_in_def)
  with False show ?thesis by simp
qed

lemma best_of_offer: "best_of seen m \<Longrightarrow> best_of (seen @ [s]) (offer m s)"
  unfolding best_of_def
proof (intro conjI allI)
  assume a: "distinct (map fst m) \<and> (\<forall>k. best_in seen k (map_of m k))"
  then show "distinct (map fst (offer m s))"
    by (simp add: offer_def map_set_distinct split: option.splits)
  fix k
  from a have "\<And>k. best_in seen k (map_of m k)" by blast
  then show "best_in (seen @ [s]) k (map_of (offer m s) k)"
    unfolding map_of_offer by (rule best_in_offer)
qed

lemma best_of_foldl: "best_of seen m \<Longrightarrow> best_of (seen @ xs) (foldl offer m xs)"
proof (induction xs arbitrary: seen m)
  case Nil
  then show ?case by simp
next
  case (Cons x xs)
  from Cons.prems have "best_of (seen @ [x]) (offer m x)" by (rule best_of_offer)
  then have "best_of ((seen @ [x]) @ xs) (foldl offer (offer m x) xs)" by (rule Cons.IH)
  then show ?case by simp
qed

lemma best_of_uniqueSources: "best_of (offered R M) (uniqueSources R M)"
proof -
  have "best_of [] []" by (simp add: best_of_def best_in_def)
  then have "best_of ([] @ document_sources R) (foldl offer [] (document_sources R))"
    by (rule best_of_foldl)
  then have "best_of (([] @ document_sources R) @ multimedia_sources M)
               (foldl offer (foldl offer [] (document_sources R)) (multimedia_sources M))"
    by (rule best_of_foldl)
  then show ?thesis by (simp add: offered_def uniqueSources_def)
qed

lemma snd_uniqueSources:
  assumes "best_of seen m"
  shows "map src_filename (map snd m) = map fst m"
proof -
  have "src_filename v = k" if "(k, v) \<in> set m" for k v
  proof -
    from assms have d: "distinct (map fst m)" and b: "best_in seen k (map_of m k)"
      by (simp_all add: best_of_def)
    from d that have "map_of m k = Some v" by simp
    with b show ?thesis by (simp add: best_in_def)
  qed
  then show ?thesis by auto
qed

lemma best_member:
  assumes "best_of seen m" and "v \<in> set (map snd m)"
  shows "v \<in> set seen \<and> (\<forall>c \<in> set seen. src_filename c = src_filename v \<longrightarrow> src_score c \<le> src_score v)"
proof -
  from assms(2) obtain k where kv: "(k, v) \<in> set m" by auto
  from assms(1) have d: "distinct (map fst m)" and b: "best_in seen k (map_of m k)"
    by (simp_all add: best_of_def)
  from d kv have "map_of m k = Some v" by simp
  with b show ?thesis by (auto simp: best_in_def)
qed

lemma best_keys:
  assumes "best_of seen m"
  shows "set (map fst m) = src_filename ` set seen"
proof -
  have "k \<in> set (map fst m) \<longleftrightarrow> k \<in> src_filename ` set seen" for k
  proof -
    from assms have b: "best_in seen k (map_of m k)" by (simp add: best_of_def)
    show ?thesis
    proof (cases "map_of m k")
      case None
      with b have "k \<notin> src_filename ` set seen" by (simp add: best_in_def)
      moreover from None have "k \<notin> set (map fst m)" by (simp add: map_of_eq_None_iff)
      ultimately show ?thesis by simp
    next
      case (Some v)
      with b have "src_filename v = k" "v \<in> set seen" by (simp_all add: best_in_def)
      then have "k \<in> src_filename ` set seen" by blast
      moreover from Some have "k \<in> set (map fst m)" by (auto dest: map_of_SomeD intro: rev_image_eqI)
      ultimately show ?thesis by simp
    qed
  qed
  then show ?thesis by blast
qed

lemma distinct_map_sort_desc: "distinct (map g (sort_desc f xs)) = distinct (map g xs)"
proof -
  have "mset (map g (sort_desc f xs)) = mset (map g xs)" by (simp add: sort_desc_def)
  then show ?thesis by (rule mset_eq_imp_distinct_iff)
qed

subsection \<open>The reranker: primary path, fallback and last resort\<close>


lemma rerankBySimilarity_ok:
  "rx_accepts rx query matches \<Longrightarrow>
   rerankBySimilarity rx query matches topK =
     slice 0 topK (sort_desc score (map (pattern_result rx query) matches))"
  by (simp add: rerankBySimilarity_def try_ok)

lemma rerankBySimilarity_throws:
  "\<not> rx_accepts rx query matches \<Longrightarrow>
   rerankBySimilarity rx query matches topK = map unmodified (slice 0 topK matches)"
  by (simp add: rerankBySimilarity_def try_throws)

lemma rerankWithBGE_unavailable:
  "unavailable api \<Longrightarrow>
   rerankWithBGE rx api query matches topK =
     (if matches = [] then [] else rerankBySimilarity rx query matches topK)"
  by (cases api) (simp_all add: unavailable_def rerankWithBGE_def rerankWithBGE_try_def)

lemma rerankBySimilarity_nonempty:
  assumes "matches \<noteq> []" and "1 \<le> topK"
  shows "rerankBySimilarity rx query matches topK \<noteq> []"
proof (cases "rx_accepts rx query matches")
  case True
  have "sort_desc score (map (pattern_result rx query) matches) \<noteq> []"
    using assms(1) length_sort_desc [of score "map (pattern_result rx query) matches"]
    by (metis length_0_conv length_map)
  with assms(2) True show ?thesis
    by (simp add: rerankBySimilarity_ok slice0_take)
next
  case False
  with assms show ?thesis by (simp add: rerankBySimilarity_throws slice0_take)
qed

lemma score_pattern_result [simp]:
  "score (pattern_result rx query m) = pattern_score rx query m"
  by (simp add: pattern_result_def)

text \<open>The primary path: when the answer of the endpoint yields at least one result, the
  function returns the results built from the items, sorted by decreasing fused score,
  and each fused score is 0.3 times the similarity plus 0.7 times the relevance.\<close>

lemma rerankWithBGE_primary:
  assumes "matches \<noteq> []" and "rerankedResults matches results \<noteq> []"
  shows "rerankWithBGE rx (Answer results) query matches topK =
           sort_desc score (rerankedResults matches results)"
  using assms by (simp add: rerankWithBGE_def rerankWithBGE_try_def)

lemma combine_score:
  "combine matches it = Some r \<Longrightarrow>
   \<exists>m::SearchMatch. nth_match matches (index it) = Some m \<and>
       score r = 0.3 * score m + 0.7 * relevance_score it \<and> originalScore r = score m"
  by (auto simp: combine_def Let_def split: option.splits)

lemma rerankWithBGE_primary_scores:
  assumes "matches \<noteq> []" and "rerankedResults matches (Some items) \<noteq> []"
      and "r \<in> set (rerankWithBGE rx (Answer (Some items)) query matches topK)"
  shows "\<exists>it \<in> set items. \<exists>m::SearchMatch.
           nth_match matches (index it) = Some m \<and>
           score r = 0.3 * score m + 0.7 * relevance_score it"
proof -
  from assms have "r \<in> set (rerankedResults matches (Some items))"
    by (simp add: rerankWithBGE_primary set_sort_desc)
  then obtain it where it: "it \<in> set items" "combine matches it = Some r"
    by (auto simp: rerankedResults_def List.map_filter_def split: option.splits)
  from combine_score [OF it(2)] it(1) show ?thesis by blast
qed

lemma rerankWithBGE_primary_sorted:
  assumes "matches \<noteq> []" and "rerankedResults matches results \<noteq> []"
  shows "sorted_desc (map score (rerankWithBGE rx (Answer results) query matches topK))"
  using assms by (simp add: rerankWithBGE_primary sorted_desc_sort)

lemma rerankWithBGE_scenario:
  "map (\<lambda>r. (filename r, score r))
     (rerankWithBGE rx (Answer (Some [item 0 0.9, item 1 0.2])) query
        [candidate ''first'' ''one'' 0.5, candidate ''second'' ''two'' 0.8] 2)
   = [(''first'', 0.78), (''second'', 0.38)]"
  by (simp add: rerankWithBGE_def rerankWithBGE_try_def rerankedResults_def
      List.map_filter_def combine_def nth_match_def item_def candidate_def sort_desc_def)

text \<open>
  Claim C4. On the primary path the fused score is 0.3 times the similarity plus 0.7
  times the relevance and the result is sorted by decreasing fused score (the three
  lemmas above), but the result is not truncated to \<open>topK\<close>: with \<open>topK = 1\<close> and an
  answer that scores both candidates, both are returned.
\<close>

theorem rerankWithBGE_exceeds_topK:
  "length (rerankWithBGE literal_engine (Answer (Some [item 0 0.9, item 1 0.2])) ''query''
             [candidate ''first'' ''one'' 0.5, candidate ''second'' ''two'' 0.8] 1) = 2"
  by (simp add: rerankWithBGE_def rerankWithBGE_try_def rerankedResults_def
      List.map_filter_def combine_def nth_match_def item_def candidate_def sort_desc_def)

text \<open>With the endpoint unavailable, a non-empty candidate list and \<open>topK\<close> at least 1,
  the result is not empty; and when no pattern is rejected, the result is cut from the
  candidates in the order of decreasing score, the score of a candidate being 0.5 times
  its similarity, plus 0.3 times the density of the pattern matches, plus 0.2 times the
  smaller of 1 and its length divided by 1000.\<close>

lemma rerankWithBGE_fallback:
  assumes "unavailable api" and "matches \<noteq> []" and "1 \<le> topK"
  shows "rerankWithBGE rx api query matches topK \<noteq> [] \<and>
         (rx_accepts rx query matches \<longrightarrow>
            rerankWithBGE rx api query matches topK =
              take (nat topK) (sort_desc score (map (pattern_result rx query) matches)) \<and>
            sorted_desc (map score (rerankWithBGE rx api query matches topK)) \<and>
            (\<forall>r \<in> set (rerankWithBGE rx api query matches topK).
               \<exists>m \<in> set matches.
                 r = pattern_result rx query m \<and>
                 score r = 0.5 * score m + 0.3 * patternDensity rx query (content m)
                             + 0.2 * min 1 (real (length (content m)) / 1000)))"
proof -
  let ?all = "sort_desc score (map (pattern_result rx query) matches)"
  have eq: "rerankWithBGE rx api query matches topK = rerankBySimilarity rx query matches topK"
    using assms(1,2) by (simp add: rerankWithBGE_unavailable)
  have ne: "rerankWithBGE rx api query matches topK \<noteq> []"
    unfolding eq using assms(2,3) by (rule rerankBySimilarity_nonempty)
  have rest: "rerankWithBGE rx api query matches topK = take (nat topK) ?all \<and>
      sorted_desc (map score (rerankWithBGE rx api query matches topK)) \<and>
      (\<forall>r \<in> set (rerankWithBGE rx api query matches topK).
         \<exists>m \<in> set matches.
           r = pattern_result rx query m \<and>
           score r = 0.5 * score m + 0.3 * patternDensity rx query (content m)
                       + 0.2 * min 1 (real (length (content m)) / 1000))"
    if acc: "rx_accepts rx query matches"
  proof -
    have r: "rerankWithBGE rx api query matches topK = take (nat topK) ?all"
      unfolding eq using acc assms(3) by (simp add: rerankBySimilarity_ok slice0_take)
    have s: "sorted_desc (map score (take (nat topK) ?all))"
      by (rule sorted_desc_take) (rule sorted_desc_sort)
    have m: "\<exists>m \<in> set matches.
           r = pattern_result rx query m \<and>
           score r = 0.5 * score m + 0.3 * patternDensity rx query (content m)
                       + 0.2 * min 1 (real (length (content m)) / 1000)"
      if "r \<in> set (take (nat topK) ?all)" for r
    proof -
      from that have "r \<in> set ?all" by (rule in_set_takeD)
      then have "r \<in> set (map (pattern_result rx query) matches)"
        by (simp only: set_sort_desc)
      then obtain m where "m \<in> set matches" "r = pattern_result rx query m" by auto
      then show ?thesis by (auto simp: pattern_score_def)
    qed
    from r s m show ?thesis by simp
  qed
  from ne rest show ?thesis by blast
qed

text \<open>When a match of each pattern is an occurrence of the word, as for query words
  without metacharacters, the fallback is the one of the specification.\<close>

lemma pattern_score_occurrences:
  assumes "counts_occurrences rx query matches" and "m \<in> set matches"
  shows "pattern_score rx query m = fallback_score query m"
proof -
  have "map (\<lambda>w. case rx w (toLowerCase (content m)) of None \<Rightarrow> 0 | Some n \<Rightarrow> n)
            (queryWords_of query)
        = map (\<lambda>w. occurrences w (toLowerCase (content m))) (queryWords_of query)"
    using assms by (intro map_cong) (simp_all add: counts_occurrences_def)
  then have "sum_list (map (\<lambda>w. case rx w (toLowerCase (content m)) of None \<Rightarrow> 0 | Some n \<Rightarrow> n)
                           (queryWords_of query))
             = sum_list (map (\<lambda>w. occurrences w (toLowerCase (content m)))
                             (queryWords_of query))"
    by (rule arg_cong)
  then show ?thesis
    by (simp only: pattern_score_def fallback_score_def patternDensity_def keywordDensity_def)
qed

lemma rerankWithBGE_fallback_occurrences:
  assumes "unavailable api" and "matches \<noteq> []" and "1 \<le> topK"
      and "counts_occurrences rx query matches"
  shows "rerankWithBGE rx api query matches topK \<noteq> [] \<and>
         sorted_desc (map score (rerankWithBGE rx api query matches topK)) \<and>
         (\<forall>r \<in> set (rerankWithBGE rx api query matches topK).
            \<exists>m \<in> set matches.
              content r = content m \<and> filename r = filename m \<and>
              score r = fallback_score query m)"
proof -
  have acc: "rx_accepts rx query matches"
    using assms(4) by (simp add: counts_occurrences_def rx_accepts_def)
  note th = rerankWithBGE_fallback [OF assms(1-3), of rx query]
  note ne = th [THEN conjunct1]
  note s = th [THEN conjunct2, THEN mp, OF acc, THEN conjunct2, THEN conjunct1]
  note f = th [THEN conjunct2, THEN mp, OF acc, THEN conjunct2, THEN conjunct2]
  have "\<exists>m \<in> set matches.
          content r = content m \<and> filename r = filename m \<and> score r = fallback_score query m"
    if "r \<in> set (rerankWithBGE rx api query matches topK)" for r
  proof -
    from f that obtain m where m: "m \<in> set matches" "r = pattern_result rx query m" by blast
    from assms(4) m(1) have "pattern_score rx query m = fallback_score query m"
      by (rule pattern_score_occurrences)
    with m show ?thesis by (auto simp: pattern_result_def unmodified_def)
  qed
  with ne s show ?thesis by blast
qed

text \<open>
  Claim C5. With the endpoint unavailable, the fused score of each returned candidate
  is 0.5 times its similarity, plus 0.3 times its keyword density, plus 0.2 times the
  smaller of 1 and its length divided by 1000. The fallback builds a regular expression
  from each query word as it is: a word that is not a pattern, here the lone question
  mark, makes the constructor throw, and the last resort returns the candidates with
  their similarity as score instead of the fused score. For the two candidates of the
  query below the fused scores are 0.6008 and 0.3508; the scores returned are 0.9 and
  0.7.
\<close>

theorem rerank_fallback_unescaped:
  "map score (rerankWithBGE literal_engine NotOk ''what is this ?''
               [candidate ''a.pdf'' ''this'' 0.9, candidate ''b.pdf'' ''that'' 0.7] 3)
     = [0.9, 0.7] \<and>
   map (fallback_score ''what is this ?'')
       [candidate ''a.pdf'' ''this'' 0.9, candidate ''b.pdf'' ''that'' 0.7]
     = [0.6008, 0.3508]"
  by code_simp



subsection \<open>Fusion of the sources\<close>

text \<open>
  Claim C3. The fused sources hold every file name of the reranked documents and of the
  boosted multimedia results exactly once; the entry kept for a file name is one of the
  competing entries and no competing entry with that name has a higher score; and the
  list is sorted by decreasing score.
\<close>

theorem allSources_fused:
  "distinct (map src_filename (allSources R M)) \<and>
   set (map src_filename (allSources R M)) = set (map src_filename (offered R M)) \<and>
   (\<forall>e \<in> set (allSources R M).
      e \<in> set (offered R M) \<and>
      (\<forall>c \<in> set (offered R M). src_filename c = src_filename e \<longrightarrow> src_score c \<le> src_score e)) \<and>
   sorted_desc (map src_score (allSources R M))"
proof -
  let ?u = "uniqueSources R M"
  note b = best_of_uniqueSources [of R M]
  have d: "distinct (map fst ?u)" using b by (simp add: best_of_def)
  have k: "map src_filename (map snd ?u) = map fst ?u" using b by (rule snd_uniqueSources)
  have "distinct (map src_filename (sort_desc src_score (map snd ?u)))"
    using d by (simp only: distinct_map_sort_desc k)
  then have 1: "distinct (map src_filename (allSources R M))"
    by (simp only: allSources_def)
  have "set (map src_filename (sort_desc src_score (map snd ?u)))
          = src_filename ` set (map snd ?u)"
    by (simp only: set_map set_sort_desc)
  also have "\<dots> = set (map src_filename (map snd ?u))" by (simp only: set_map)
  also have "\<dots> = set (map fst ?u)" by (simp only: k)
  also have "\<dots> = src_filename ` set (offered R M)" using b by (rule best_keys)
  also have "\<dots> = set (map src_filename (offered R M))" by (simp only: set_map)
  finally have 2: "set (map src_filename (allSources R M)) = set (map src_filename (offered R M))"
    by (simp only: allSources_def)
  have 3: "\<forall>e \<in> set (allSources R M).
      e \<in> set (offered R M) \<and>
      (\<forall>c \<in> set (offered R M). src_filename c = src_filename e \<longrightarrow> src_score c \<le> src_score e)"
  proof
    fix e assume "e \<in> set (allSources R M)"
    then have "e \<in> set (map snd ?u)" by (simp only: allSources_def set_sort_desc)
    with b show "e \<in> set (offered R M) \<and>
      (\<forall>c \<in> set (offered R M). src_filename c = src_filename e \<longrightarrow> src_score c \<le> src_score e)"
      by (rule best_member)
  qed
  have 4: "sorted_desc (map src_score (allSources R M))"
    unfolding allSources_def by (rule sorted_desc_sort)
  from 1 2 3 4 show ?thesis by (intro conjI)
qed

theorem allSources_fused_witness:
  "map (\<lambda>e. (src_filename e, src_score e))
     (allSources [reranked ''a.pdf'' 0.9, reranked ''b.mp4'' 0.5, reranked ''a.pdf'' 0.95]
                 [media ''b.mp4'' 0.8, media ''c.mp3'' 0.7])
     = [(''b.mp4'', 0.96), (''a.pdf'', 0.95), (''c.mp3'', 0.84)] \<and>
   distinct (map src_filename
     (allSources [reranked ''a.pdf'' 0.9, reranked ''b.mp4'' 0.5, reranked ''a.pdf'' 0.95]
                 [media ''b.mp4'' 0.8, media ''c.mp3'' 0.7])) \<and>
   sorted_desc (map src_score
     (allSources [reranked ''a.pdf'' 0.9, reranked ''b.mp4'' 0.5, reranked ''a.pdf'' 0.95]
                 [media ''b.mp4'' 0.8, media ''c.mp3'' 0.7]))"
proof -
  have "map (\<lambda>e. (src_filename e, src_score e))
     (allSources [reranked ''a.pdf'' 0.9, reranked ''b.mp4'' 0.5, reranked ''a.pdf'' 0.95]
                 [media ''b.mp4'' 0.8, media ''c.mp3'' 0.7])
     = [(''b.mp4'', 0.96), (''a.pdf'', 0.95), (''c.mp3'', 0.84)]"
    by code_simp
  with allSources_fused
         [of "[reranked ''a.pdf'' 0.9, reranked ''b.mp4'' 0.5, reranked ''a.pdf'' 0.95]"
             "[media ''b.mp4'' 0.8, media ''c.mp3'' 0.7]"]
  show ?thesis by (simp only: simp_thms)
qed

subsection \<open>The page-aware chunker\<close>

lemma contiguous_push:
  assumes "contiguous (chunks, idx)" and "chunkIndex c = idx"
  shows "contiguous (chunks @ [c], idx + 1)"
  using assms by (simp add: contiguous_def)

lemma plain_loop_contiguous:
  "contiguous (chunks, idx) \<Longrightarrow>
   plain_loop chunkSize overlap ss chunks cur idx pos = (chunks', cur', idx', pos') \<Longrightarrow>
   contiguous (chunks', idx')"
proof (induction ss arbitrary: chunks cur idx pos)
  case Nil
  then show ?case by simp
next
  case (Cons s ss)
  show ?case
  proof (cases "exceeds chunkSize cur (trim s)")
    case True
    let ?c = "\<lparr> chunk_content = trim cur, pageNumber = None,
                 startChar = pos - int (length cur), endChar = pos - 1, chunkIndex = idx \<rparr>"
    have "contiguous (chunks @ [?c], idx + 1)"
      using Cons.prems(1) by (rule contiguous_push) simp
    moreover from Cons.prems(2) True
    have "plain_loop chunkSize overlap ss (chunks @ [?c]) (reseed overlap cur (trim s))
            (idx + 1) (pos + int (length (trim s)) + 1) = (chunks', cur', idx', pos')"
      by simp
    ultimately show ?thesis by (rule Cons.IH)
  next
    case False
    with Cons.prems(2)
    have "plain_loop chunkSize overlap ss chunks (append_sentence cur (trim s)) idx
            (pos + int (length (trim s)) + 1) = (chunks', cur', idx', pos')"
      by simp
    with Cons.prems(1) show ?thesis by (rule Cons.IH)
  qed
qed

lemma page_loop_contiguous:
  "contiguous (chunks, idx) \<Longrightarrow>
   page_loop chunkSize overlap pn ss chunks cur st idx = (chunks', cur', st', idx') \<Longrightarrow>
   contiguous (chunks', idx')"
proof (induction ss arbitrary: chunks cur st idx)
  case Nil
  then show ?case by simp
next
  case (Cons s ss)
  show ?case
  proof (cases "exceeds chunkSize cur (trim s)")
    case True
    let ?e = "st + int (length cur) - 1"
    let ?c = "\<lparr> chunk_content = trim cur, pageNumber = Some pn,
                 startChar = st, endChar = ?e, chunkIndex = idx \<rparr>"
    have "contiguous (chunks @ [?c], idx + 1)"
      using Cons.prems(1) by (rule contiguous_push) simp
    moreover from Cons.prems(2) True
    have "page_loop chunkSize overlap pn ss (chunks @ [?c]) (reseed overlap cur (trim s))
            (?e - int (length (join '' '' (overlapWords overlap cur)))) (idx + 1)
          = (chunks', cur', st', idx')"
      by (simp add: Let_def)
    ultimately show ?thesis by (rule Cons.IH)
  next
    case False
    with Cons.prems(2)
    have "page_loop chunkSize overlap pn ss chunks (append_sentence cur (trim s)) st idx
          = (chunks', cur', st', idx')"
      by simp
    with Cons.prems(1) show ?thesis by (rule Cons.IH)
  qed
qed

lemma contiguous_empty: "contiguous ([], 0)"
  by (simp add: contiguous_def)

lemma plain_chunks_contiguous:
  "map chunkIndex (plain_chunks text chunkSize overlap)
     = [0..<length (plain_chunks text chunkSize overlap)]"
proof -
  obtain chunks cur idx pos
    where l: "plain_loop chunkSize overlap (sentences_of text) [] [] 0 0 = (chunks, cur, idx, pos)"
    by (metis prod_cases4)
  from contiguous_empty l have c: "contiguous (chunks, idx)" by (rule plain_loop_contiguous)
  show ?thesis
  proof (cases "trim cur \<noteq> []")
    case True
    let ?c = "\<lparr> chunk_content = trim cur, pageNumber = None,
                 startChar = pos - int (length cur), endChar = pos - 1, chunkIndex = idx \<rparr>"
    have "contiguous (chunks @ [?c], idx + 1)" using c by (rule contiguous_push) simp
    with True l show ?thesis by (simp add: plain_chunks_def contiguous_def)
  next
    case False
    with c l show ?thesis by (simp add: plain_chunks_def contiguous_def)
  qed
qed

lemma page_chunks_contiguous:
  assumes "contiguous st"
  shows "contiguous (page_chunks chunkSize overlap st pg)"
proof -
  obtain chunks idx where st: "st = (chunks, idx)" by (cases st)
  with assms have c: "contiguous (chunks, idx)" by simp
  show ?thesis
  proof (cases "int (length (span_content pg)) \<le> chunkSize")
    case True
    let ?c = "\<lparr> chunk_content = span_content pg, pageNumber = Some (span_pageNumber pg),
                 startChar = span_startChar pg, endChar = span_endChar pg, chunkIndex = idx \<rparr>"
    have "contiguous (chunks @ [?c], idx + 1)" using c by (rule contiguous_push) simp
    with True st show ?thesis by (simp add: page_chunks_def)
  next
    case False
    obtain chunks' cur st' idx'
      where l: "page_loop chunkSize overlap (span_pageNumber pg)
                  (sentences_of (span_content pg)) chunks [] (span_startChar pg) idx
                = (chunks', cur, st', idx')"
      by (metis prod_cases4)
    from c l have c': "contiguous (chunks', idx')" by (rule page_loop_contiguous)
    show ?thesis
    proof (cases "trim cur \<noteq> []")
      case True
      let ?c = "\<lparr> chunk_content = trim cur, pageNumber = Some (span_pageNumber pg),
                   startChar = st', endChar = span_endChar pg, chunkIndex = idx' \<rparr>"
      have "contiguous (chunks' @ [?c], idx' + 1)" using c' by (rule contiguous_push) simp
      with True False st l show ?thesis by (simp add: page_chunks_def)
    next
      case t: False
      with c' False st l show ?thesis by (simp add: page_chunks_def)
    qed
  qed
qed

lemma foldl_page_chunks_contiguous:
  "contiguous st \<Longrightarrow> contiguous (foldl (page_chunks chunkSize overlap) st ps)"
  by (induction ps arbitrary: st) (simp_all add: page_chunks_contiguous)

lemma chunkText_contiguous:
  "map chunkIndex (chunkText text chunkSize overlap pages)
     = [0..<length (chunkText text chunkSize overlap pages)]"
proof (cases pages)
  case None
  then show ?thesis by (simp add: chunkText_def plain_chunks_contiguous)
next
  case (Some ps)
  show ?thesis
  proof (cases "ps = []")
    case True
    with Some show ?thesis by (simp add: chunkText_def plain_chunks_contiguous)
  next
    case False
    have "contiguous (foldl (page_chunks chunkSize overlap) ([], 0) ps)"
      using contiguous_empty by (rule foldl_page_chunks_contiguous)
    with Some False show ?thesis by (simp add: chunkText_def contiguous_def)
  qed
qed

text \<open>
  Claim C7, as stated: the text \<open>A. B. C.\<close> with chunk size 3 and no pages gives three
  chunks. It gives two: a sentence is added to the buffer as long as the two lengths,
  without the separating space, do not exceed the chunk size.
\<close>

theorem chunkText_scenario_counterexample:
  "length (chunkText ''A. B. C.'' 3 200 None) \<noteq> 3"
  by (simp add: chunkText_def plain_chunks_def sentences_of_def split_regex_def
      is_terminal_def trim_def is_space_def exceeds_def append_sentence_def reseed_def
      overlapWords_def slice_from_def slice_index_def split_char_def)

text \<open>
  Claim C7, amended. The text \<open>A. B. C.\<close> with chunk size 3, the default overlap and no
  pages gives two chunks, \<open>A B\<close> with index 0 and \<open>A B C\<close> with index 1, both without
  a page number; and for every input the indices of the chunks are 0, 1, 2, ... in
  order.
\<close>

theorem chunkText_indices:
  "map (\<lambda>c. (chunk_content c, pageNumber c, chunkIndex c)) (chunkText ''A. B. C.'' 3 200 None)
     = [(''A B'', None, 0), (''A B C'', None, 1)] \<and>
   map chunkIndex (chunkText text chunkSize overlap pages)
     = [0..<length (chunkText text chunkSize overlap pages)]"
proof -
  have "map (\<lambda>c. (chunk_content c, pageNumber c, chunkIndex c))
          (chunkText ''A. B. C.'' 3 200 None) = [(''A B'', None, 0), (''A B C'', None, 1)]"
    by (simp add: chunkText_def plain_chunks_def sentences_of_def split_regex_def
      is_terminal_def trim_def is_space_def exceeds_def append_sentence_def reseed_def
      overlapWords_def slice_from_def slice_index_def split_char_def)
  then show ?thesis using chunkText_contiguous by (intro conjI)
qed

subsection \<open>The character-window chunker of the worker\<close>

text \<open>The loop variable grows in every iteration, which is the termination argument of
  \<open>window_loop\<close>; and every chunk that the loop emits has a non-empty content.\<close>

lemma next_start_grows: "start < next_start t chunkSize overlap start"
  by (simp add: next_start_def)

lemma window_loop_nonempty:
  "\<forall>c \<in> set chunks. wc_content c \<noteq> [] \<Longrightarrow>
   \<forall>c \<in> set (window_loop t chunkSize overlap start idx chunks). wc_content c \<noteq> []"
proof (induction t chunkSize overlap start idx chunks rule: window_loop.induct)
  case (1 t chunkSize overlap start idx chunks)
  show ?case
  proof (cases "start < int (length t)")
    case False
    with "1.prems" show ?thesis by (subst window_loop.simps) simp
  next
    case True
    show ?thesis
    proof (cases "trim (slice start (window_end t chunkSize start) t) \<noteq> []")
      case False
      with True "1.IH"(2) "1.prems" show ?thesis by (subst window_loop.simps) simp
    next
      case ne: True
      with True "1.IH"(1) "1.prems" show ?thesis by (subst window_loop.simps) simp
    qed
  qed
qed

lemma worker_chunkText_nonempty:
  assumes "cleanText text \<noteq> []"
  shows "\<forall>c \<in> set (worker_chunkText text chunkSize overlap). wc_content c \<noteq> []"
proof (cases "int (length (cleanText text)) \<le> chunkSize")
  case True
  with assms show ?thesis by (simp add: worker_chunkText_def Let_def)
next
  case False
  have "\<forall>c \<in> set (window_loop (cleanText text) chunkSize overlap 0 0 []). wc_content c \<noteq> []"
    by (rule window_loop_nonempty) simp
  with False show ?thesis by (simp add: worker_chunkText_def Let_def)
qed

text \<open>
  Claim C10. The loop terminates (the definition of \<open>window_loop\<close> comes with its
  termination proof, by the growth of \<open>start\<close>), and the chunks of the loop are not
  empty. But a text whose cleaned form is not longer than the chunk size does not reach
  the loop: it is returned as a single chunk without the test of the loop, so that the
  empty text gives one chunk with an empty content.
\<close>

theorem worker_chunkText_empty_chunk:
  "map wc_content (worker_chunkText '''' 1000 200) = ['''']"
  by (simp add: worker_chunkText_def cleanText_def trim_def)

subsection \<open>The retry bound of the queue\<close>

lemma retryFailedTask_retries:
  "fst (retryFailedTask queueName t st) \<longleftrightarrow> retryCount_or_0 t + 1 \<le> maxRetries_or_3 t"
  by (simp add: retryFailedTask_def Let_def)

lemma retryFailedTask_gives_up:
  "maxRetries_or_3 t < retryCount_or_0 t + 1 \<Longrightarrow> retryFailedTask queueName t st = (False, st)"
  by (simp add: retryFailedTask_def Let_def)

text \<open>A file-processing task and a vector-storage task that fail four times are dropped
  and leave the document failed.\<close>

lemma file_task_fails:
  "queue_lengths (startWorker [Thrown True, Thrown True, Thrown True, Thrown True]
       (pushFileProcessingTask (new_task ''t1'' ''doc'') (upload_state ''doc''))) = (0, 0, 0) \<and>
   doc_statuses (startWorker [Thrown True, Thrown True, Thrown True, Thrown True]
       (pushFileProcessingTask (new_task ''t1'' ''doc'') (upload_state ''doc''))) ''doc''
     = Some Failed"
  by code_simp

lemma vector_task_fails:
  "queue_lengths (startWorker
       [Done (new_task ''t2'' ''doc''), Done (new_task ''t3'' ''doc''),
        Thrown True, Thrown True, Thrown True, Thrown True]
       (pushFileProcessingTask (new_task ''t1'' ''doc'') (upload_state ''doc''))) = (0, 0, 0) \<and>
   doc_statuses (startWorker
       [Done (new_task ''t2'' ''doc''), Done (new_task ''t3'' ''doc''),
        Thrown True, Thrown True, Thrown True, Thrown True]
       (pushFileProcessingTask (new_task ''t1'' ''doc'') (upload_state ''doc''))) ''doc''
     = Some Failed"
  by code_simp

text \<open>
  Claim C2. After \<open>maxRetries + 1 = 4\<close> failures a task is not enqueued again, for each
  of the three queues. The document ends as failed for a file-processing and for a
  vector-storage task, whose handlers store the status before they throw again. The
  handler of an embedding task does not: after the file has been processed and the
  embedding task has failed four times, every queue is empty and the status of the
  document is still \<open>processing\<close>.
\<close>

theorem embedding_task_fails_status:
  "queue_lengths (startWorker
       [Done (new_task ''t2'' ''doc''), Thrown True, Thrown True, Thrown True, Thrown True]
       (pushFileProcessingTask (new_task ''t1'' ''doc'') (upload_state ''doc''))) = (0, 0, 0) \<and>
   doc_statuses (startWorker
       [Done (new_task ''t2'' ''doc''), Thrown True, Thrown True, Thrown True, Thrown True]
       (pushFileProcessingTask (new_task ''t1'' ''doc'') (upload_state ''doc''))) ''doc''
     = Some Processing"
  by code_simp

subsection \<open>The recommendation engine\<close>

lemma length_slice0: "0 \<le> k \<Longrightarrow> int (length (slice 0 k xs)) \<le> k"
  by (simp add: slice0_take)

lemma try_throws_iff:
  "isl (generateRecommendations_try cfg env context sources) = step_throws env context sources"
  by (simp add: generateRecommendations_try_def step_throws_def split: sum.splits)

lemma length_fallback: "length (getFallbackRecommendations uuid) = 3"
  by (simp add: getFallbackRecommendations_def)

lemma generateRecommendations_throws:
  assumes "step_throws env context sources"
  shows "generateRecommendations cfg uuid env context sources = getFallbackRecommendations uuid"
proof -
  from assms have "isl (generateRecommendations_try cfg env context sources)"
    using try_throws_iff [of cfg env "context" sources] by simp
  then obtain e where "generateRecommendations_try cfg env context sources = Inl e"
    by (cases "generateRecommendations_try cfg env context sources") simp_all
  then show ?thesis by (simp add: generateRecommendations_def)
qed

lemma generateRecommendations_ok:
  assumes "\<not> step_throws env context sources" and "0 \<le> maxRecommendations cfg"
  shows "int (length (generateRecommendations cfg uuid env context sources))
           \<le> maxRecommendations cfg"
proof -
  from assms(1) have "\<not> isl (generateRecommendations_try cfg env context sources)"
    using try_throws_iff [of cfg env "context" sources] by simp
  then obtain r where r: "generateRecommendations_try cfg env context sources = Inr r"
    by (cases "generateRecommendations_try cfg env context sources") simp_all
  then obtain qs where "r = slice 0 (maxRecommendations cfg) qs"
    by (auto simp: generateRecommendations_try_def split: sum.splits)
  with assms(2) have "int (length r) \<le> maxRecommendations cfg" by (simp only: length_slice0)
  with r show ?thesis by (simp add: generateRecommendations_def)
qed

text \<open>
  Claim C9, as stated: the result never has more than \<open>maxRecommendations\<close> questions.
  With an engine configured for one recommendation and a step that throws, the result is
  the fallback, which has three questions.
\<close>

theorem generateRecommendations_counterexample:
  "\<not> int (length (generateRecommendations (default_config\<lparr>maxRecommendations := 1\<rparr>)
                     numbered failing_steps () ()))
       \<le> maxRecommendations (default_config\<lparr>maxRecommendations := 1\<rparr>)"
  by (simp add: generateRecommendations_def generateRecommendations_try_def
      failing_steps_def getFallbackRecommendations_def)

text \<open>
  Claim C9, amended. The function has a value in every case, since the \<open>catch\<close> block
  returns. When one of the steps throws, the value is the fixed list of three fallback
  questions. When no step throws and \<open>maxRecommendations\<close> is not negative, the value has
  at most \<open>maxRecommendations\<close> questions. So the value has at most \<open>maxRecommendations\<close>
  questions whenever \<open>maxRecommendations\<close> is at least 3, as it is by default.
\<close>

theorem generateRecommendations_bounded:
  "(step_throws env context sources \<longrightarrow>
      generateRecommendations cfg uuid env context sources = getFallbackRecommendations uuid) \<and>
   (\<not> step_throws env context sources \<longrightarrow> 0 \<le> maxRecommendations cfg \<longrightarrow>
      int (length (generateRecommendations cfg uuid env context sources))
        \<le> maxRecommendations cfg) \<and>
   (3 \<le> maxRecommendations cfg \<longrightarrow>
      int (length (generateRecommendations cfg uuid env context sources))
        \<le> maxRecommendations cfg) \<and>
   length (getFallbackRecommendations uuid) = 3 \<and>
   maxRecommendations default_config = 3"
proof -
  have a: "generateRecommendations cfg uuid env context sources = getFallbackRecommendations uuid"
    if "step_throws env context sources"
    using that by (rule generateRecommendations_throws)
  have b: "int (length (generateRecommendations cfg uuid env context sources))
             \<le> maxRecommendations cfg"
    if "\<not> step_throws env context sources" and "0 \<le> maxRecommendations cfg"
    using that by (rule generateRecommendations_ok)
  have c: "int (length (generateRecommendations cfg uuid env context sources))
             \<le> maxRecommendations cfg"
    if m: "3 \<le> maxRecommendations cfg"
  proof (cases "step_throws env context sources")
    case True
    with m show ?thesis by (simp add: a length_fallback)
  next
    case False
    with m show ?thesis by (simp add: b)
  qed
  have d: "maxRecommendations default_config = 3" by (simp add: default_config_def)
  from a b c d length_fallback [of uuid] show ?thesis by blast
qed

theorem generateRecommendations_bounded_witness:
  "step_throws failing_steps () () \<and>
   generateRecommendations default_config numbered failing_steps () ()
     = getFallbackRecommendations numbered \<and>
   \<not> step_throws four_candidates () () \<and>
   map rq_id (generateRecommendations default_config numbered four_candidates () ())
     = [''1'', ''2'', ''3''] \<and>
   int (length (generateRecommendations default_config numbered four_candidates () ()))
     \<le> maxRecommendations default_config"
proof -
  have t: "step_throws failing_steps () ()"
    by (simp add: step_throws_def failing_steps_def)
  have n: "\<not> step_throws four_candidates () ()"
    by (simp add: step_throws_def four_candidates_def)
  have m: "0 \<le> maxRecommendations default_config" by (simp add: default_config_def)
  have i: "map rq_id (generateRecommendations default_config numbered four_candidates () ())
             = [''1'', ''2'', ''3'']"
    by code_simp
  note th1 = generateRecommendations_bounded [of failing_steps "()" "()" default_config numbered]
  note th2 = generateRecommendations_bounded [of four_candidates "()" "()" default_config numbered]
  note f = th1 [THEN conjunct1, THEN mp, OF t]
  note l = th2 [THEN conjunct2, THEN conjunct1, THEN mp, OF n, THEN mp, OF m]
  from t f n i l show ?thesis by (intro conjI)
qed

subsection \<open>The streaming chat orchestrator\<close>

lemma read_loop_eq:
  "read_loop delta rs aiResponse sent =
     (if ReadThrows \<in> set rs then Some ReadError else None,
      aiResponse @ concat (forwarded delta rs),
      sent @ map Content (forwarded delta rs))"
proof (induction rs arbitrary: aiResponse sent)
  case Nil
  then show ?case by simp
next
  case (Cons r rs)
  then show ?case by (cases r) simp_all
qed

lemma filter_final_contents: "filter is_final (contents cs) = []"
  by (induction cs) (simp_all add: contents_def is_final_def)

lemma start_stream_fails:
  assumes "read_fails body"
  shows "start_stream delta body recommendations R M =
           contents (case body of NoBody \<Rightarrow> [] | Body rs \<Rightarrow> forwarded delta rs)
             @ [Enqueue (Content apologyContent), Enqueue (Final (final_error R)), Close]"
proof (cases body)
  case NoBody
  then show ?thesis by (simp add: start_stream_def contents_def)
next
  case (Body rs)
  with assms have "ReadThrows \<in> set rs" by (simp add: read_fails_def)
  with Body show ?thesis
    by (simp add: start_stream_def read_loop_eq contents_def)
qed

lemma start_stream_ok:
  assumes "\<not> read_fails body"
  shows "\<exists>rs. body = Body rs \<and>
           start_stream delta body recommendations R M =
             contents (forwarded delta rs @
                       (if trim (concat (forwarded delta rs)) = [] then [defaultContent] else []))
               @ [Enqueue (Final (final_ok recommendations R M)), Close]"
proof (cases body)
  case NoBody
  with assms show ?thesis by (simp add: read_fails_def)
next
  case (Body rs)
  with assms have "ReadThrows \<notin> set rs" by (simp add: read_fails_def)
  with Body show ?thesis
    by (simp add: start_stream_def read_loop_eq contents_def)
qed

text \<open>Once the stream is built, whatever happens to the body of the answer (no body,
  chunks up to the end, no text at all, or a read that throws after some chunks), the
  stream enqueues content events, then exactly one final event, and is closed right
  after it. When the body is absent or a read throws, the content events are the ones
  already forwarded followed by one apology, and the final event follows the apology.\<close>

lemma start_stream_calls:
  "length (filter is_final (start_stream delta body recommendations R M)) = 1 \<and>
   (\<exists>cs p. start_stream delta body recommendations R M
              = contents cs @ [Enqueue (Final p), Close]) \<and>
   (read_fails body \<longrightarrow>
      (\<exists>cs. start_stream delta body recommendations R M
              = contents cs @ [Enqueue (Content apologyContent),
                               Enqueue (Final (final_error R)), Close]))"
proof (cases "read_fails body")
  case True
  let ?cs = "case body of NoBody \<Rightarrow> [] | Body rs \<Rightarrow> forwarded delta rs"
  have e: "start_stream delta body recommendations R M =
             contents ?cs @ [Enqueue (Content apologyContent), Enqueue (Final (final_error R)), Close]"
    using True by (rule start_stream_fails)
  have 1: "length (filter is_final (start_stream delta body recommendations R M)) = 1"
    by (simp add: e filter_final_contents is_final_def)
  have "start_stream delta body recommendations R M =
          contents (?cs @ [apologyContent]) @ [Enqueue (Final (final_error R)), Close]"
    by (simp add: e contents_def)
  then have 2: "\<exists>cs p. start_stream delta body recommendations R M
              = contents cs @ [Enqueue (Final p), Close]"
    by blast
  from e have 3: "\<exists>cs. start_stream delta body recommendations R M
              = contents cs @ [Enqueue (Content apologyContent),
                               Enqueue (Final (final_error R)), Close]"
    by blast
  from 1 2 3 show ?thesis by blast
next
  case False
  then obtain rs where e: "start_stream delta body recommendations R M =
             contents (forwarded delta rs @
                       (if trim (concat (forwarded delta rs)) = [] then [defaultContent] else []))
               @ [Enqueue (Final (final_ok recommendations R M)), Close]"
    using start_stream_ok by blast
  have 1: "length (filter is_final (start_stream delta body recommendations R M)) = 1"
    by (simp only: e filter_append filter_final_contents) (simp add: is_final_def)
  from e have 2: "\<exists>cs p. start_stream delta body recommendations R M
              = contents cs @ [Enqueue (Final p), Close]"
    by blast
  from 1 2 False show ?thesis by blast
qed

lemma start_stream_empty_response:
  "start_stream delta (Body []) recommendations R M =
     [Enqueue (Content defaultContent), Enqueue (Final (final_ok recommendations R M)), Close]"
  by (simp add: start_stream_def trim_def)

text \<open>The stream of the claim is the one of an answer that is \<open>ok\<close>; a request that
  throws and an answer that is not \<open>ok\<close> give no stream but the JSON error.\<close>

lemma POST_response_stream:
  "POST_response delta call recommendations R M = EventStream calls \<longleftrightarrow>
     (\<exists>body. call = StatusOk body \<and> calls = start_stream delta body recommendations R M)"
  by (cases call) (auto simp: POST_response_def)

lemma POST_response_error:
  "POST_response delta call recommendations R M = JsonError500 \<longleftrightarrow>
     call = CallThrows \<or> call = StatusNotOk"
  by (cases call) (simp_all add: POST_response_def)

text \<open>
  Claim C1, as stated: for every behaviour of the completion service the client receives
  exactly one final event, after an apology when the service fails. It fails when the
  service answers with a status that is not \<open>ok\<close> (and when the request throws): the
  route throws before the stream is built and answers with the JSON error; the client
  receives no event at all.
\<close>

theorem POST_response_counterexample:
  "POST_response openai_delta StatusNotOk [] [] [] = JsonError500 \<and>
   length (filter is_final (calls_of (POST_response openai_delta StatusNotOk [] [] []))) \<noteq> 1"
  by (simp add: POST_response_def calls_of_def)

text \<open>
  Claim C1, amended. When the completion service answers \<open>ok\<close>, the route answers with
  an event stream, and for every behaviour of the body of the answer (a stream of
  tokens, an empty response, no body, a read that throws in mid-stream) the stream
  emits content events, then exactly one final event, and is closed right after it;
  when the body is absent or a read throws, a single apology content event comes right
  before the final event. When the request to the completion service throws or its
  answer is not \<open>ok\<close>, the route opens no stream and answers with a JSON error of
  status 500.
\<close>

theorem POST_response_final:
  "(call = CallThrows \<or> call = StatusNotOk \<longrightarrow>
      POST_response delta call recommendations R M = JsonError500) \<and>
   (\<forall>body. call = StatusOk body \<longrightarrow>
      (\<exists>calls. POST_response delta call recommendations R M = EventStream calls \<and>
         length (filter is_final calls) = 1 \<and>
         (\<exists>cs p. calls = contents cs @ [Enqueue (Final p), Close]) \<and>
         (read_fails body \<longrightarrow>
            (\<exists>cs. calls = contents cs @ [Enqueue (Content apologyContent),
                                          Enqueue (Final (final_error R)), Close]))))"
proof (intro conjI allI impI)
  assume "call = CallThrows \<or> call = StatusNotOk"
  then show "POST_response delta call recommendations R M = JsonError500"
    by (simp only: POST_response_error)
next
  fix body
  assume c: "call = StatusOk body"
  let ?calls = "start_stream delta body recommendations R M"
  from c have "POST_response delta call recommendations R M = EventStream ?calls"
    by (simp add: POST_response_def)
  with start_stream_calls [of delta body recommendations R M]
  show "\<exists>calls. POST_response delta call recommendations R M = EventStream calls \<and>
         length (filter is_final calls) = 1 \<and>
         (\<exists>cs p. calls = contents cs @ [Enqueue (Final p), Close]) \<and>
         (read_fails body \<longrightarrow>
            (\<exists>cs. calls = contents cs @ [Enqueue (Content apologyContent),
                                          Enqueue (Final (final_error R)), Close]))"
    by (intro exI [of _ ?calls]) simp
qed

theorem POST_response_final_witness:
  "read_fails (Body [Bytes (''data: {\"choices\":[{\"delta\":{\"content\":\"Hi\"}}]}''
                             @ [CHR 0x0A, CHR 0x0A]), ReadThrows]) \<and>
   POST_response openai_delta
     (StatusOk (Body [Bytes (''data: {\"choices\":[{\"delta\":{\"content\":\"Hi\"}}]}''
                              @ [CHR 0x0A, CHR 0x0A]), ReadThrows]))
     [] [reranked ''a.pdf'' 0.9] []
     = EventStream
         [Enqueue (Content ''Hi''), Enqueue (Content apologyContent),
          Enqueue (Final (final_error [reranked ''a.pdf'' 0.9])), Close] \<and>
   (\<exists>calls. POST_response openai_delta
     (StatusOk (Body [Bytes (''data: {\"choices\":[{\"delta\":{\"content\":\"Hi\"}}]}''
                              @ [CHR 0x0A, CHR 0x0A]), ReadThrows]))
     [] [reranked ''a.pdf'' 0.9] [] = EventStream calls \<and>
     length (filter is_final calls) = 1) \<and>
   POST_response openai_delta StatusNotOk [] [reranked ''a.pdf'' 0.9] [] = JsonError500"
proof -
  let ?body = "Body [Bytes (''data: {\"choices\":[{\"delta\":{\"content\":\"Hi\"}}]}''
                             @ [CHR 0x0A, CHR 0x0A]), ReadThrows]"
  have u: "read_fails ?body" by (simp add: read_fails_def)
  have e: "POST_response openai_delta (StatusOk ?body) [] [reranked ''a.pdf'' 0.9] []
     = EventStream
         [Enqueue (Content ''Hi''), Enqueue (Content apologyContent),
          Enqueue (Final (final_error [reranked ''a.pdf'' 0.9])), Close]"
    by (simp add: POST_response_def start_stream_def chunk_contents_def line_content_def
        line_data_def openai_delta_def trim_def is_space_def split_char_def
        List.map_filter_def)
  note th1 = POST_response_final
               [of "StatusOk ?body" openai_delta "[]" "[reranked ''a.pdf'' 0.9]" "[]"]
  from th1 have c: "\<exists>calls. POST_response openai_delta (StatusOk ?body) []
                      [reranked ''a.pdf'' 0.9] [] = EventStream calls \<and>
                    length (filter is_final calls) = 1"
    by blast
  note th2 = POST_response_final
               [of StatusNotOk openai_delta "[]" "[reranked ''a.pdf'' 0.9]" "[]"]
  from th2 have n: "POST_response openai_delta StatusNotOk [] [reranked ''a.pdf'' 0.9] []
                      = JsonError500"
    by blast
  from u e c n show ?thesis by (intro conjI)
qed

end
